theory Spec2Isabelle
  imports Main "HOL-Library.Multiset"
begin

section \<open>JavaScript values held by the key-value store\<close>

text \<open>
  The key-value layer of \<^verbatim>\<open>StorageManager.js\<close> stores arbitrary JavaScript values after
  passing them through \<^verbatim>\<open>JSON.parse(JSON.stringify(value))\<close>. The fragment of JavaScript
  values modelled here: \<^verbatim>\<open>undefined\<close>, \<^verbatim>\<open>null\<close>, booleans, finite numbers (as integers),
  \<^verbatim>\<open>NaN\<close>, the infinities, strings, arrays, plain objects (their own enumerable
  properties, in the order of their enumeration), functions and BigInts. A function is
  given by what a call of it returns, \<open>None\<close> when the call throws; this matters for a
  function that an object carries under the name \<^verbatim>\<open>toJSON\<close>, which \<^verbatim>\<open>JSON.stringify\<close>
  calls. Cyclic object graphs, which \<^verbatim>\<open>JSON.stringify\<close> also refuses, have no
  representation in an inductive datatype.
\<close>

datatype jsval =
    JUndefined
  | JNull
  | JBool bool
  | JNum int
  | JNaN
  | JInfinity
  | JStr string
  | JArr "jsval list"
  | JObj "(string \<times> jsval) list"
  | JFunction "jsval option"
  | JBigInt int

text \<open>What \<^verbatim>\<open>JSON.stringify\<close> makes of a property value or an array element, read back
  by \<^verbatim>\<open>JSON.parse\<close>: it throws, it leaves the value out, or it writes it.\<close>

datatype json_result = Throws | Omitted | Json jsval

text \<open>The \<^verbatim>\<open>toJSON\<close> method of a value, when it has one: what the call returns.\<close>

fun toJSON_of :: "jsval \<Rightarrow> jsval option option" where
  "toJSON_of (JObj kvs) =
     (case map_of kvs ''toJSON'' of Some (JFunction r) \<Rightarrow> Some r | _ \<Rightarrow> None)"
| "toJSON_of _ = None"

text \<open>
  \<open>serialize True v\<close> is \<^verbatim>\<open>SerializeJSONProperty\<close> for the value \<open>v\<close>: a callable
  \<^verbatim>\<open>toJSON\<close> of the value is called first and its result is written in place of the
  value. \<open>serialize False v\<close> is the rest of it. \<^verbatim>\<open>undefined\<close> and functions are left
  out, as a property, and written as \<^verbatim>\<open>null\<close>, as an array element; a BigInt throws a
  TypeError; numbers that are not finite are written as \<^verbatim>\<open>null\<close>.
\<close>

function serialize :: "bool \<Rightarrow> jsval \<Rightarrow> json_result" where
  "serialize True v =
     (case toJSON_of v of
        None \<Rightarrow> serialize False v
      | Some None \<Rightarrow> Throws
      | Some (Some r) \<Rightarrow> serialize False r)"
| "serialize False JUndefined = Omitted"
| "serialize False (JFunction r) = Omitted"
| "serialize False (JBigInt n) = Throws"
| "serialize False JNaN = Json JNull"
| "serialize False JInfinity = Json JNull"
| "serialize False JNull = Json JNull"
| "serialize False (JBool b) = Json (JBool b)"
| "serialize False (JNum n) = Json (JNum n)"
| "serialize False (JStr s) = Json (JStr s)"
| "serialize False (JArr xs) =
     (let rs = map (serialize True) xs in
      if Throws \<in> set rs then Throws
      else Json (JArr (map (\<lambda>r. case r of Json w \<Rightarrow> w | _ \<Rightarrow> JNull) rs)))"
| "serialize False (JObj kvs) =
     (let rs = map (\<lambda>kv. (fst kv, serialize True (snd kv))) kvs in
      if Throws \<in> snd ` set rs then Throws
      else Json (JObj (concat (map (\<lambda>kr. case snd kr of Json w \<Rightarrow> [(fst kr, w)] | _ \<Rightarrow> []) rs))))"
  by pat_completeness auto
termination
proof (relation "measure (\<lambda>(b, v). 2 * size v + (if b then 1 else 0))", goal_cases)
  case 1
  show ?case by simp
next
  case (2 v)
  show ?case by simp
next
  case (3 v x2 r)
  have found: "map_of kvs k = Some x \<Longrightarrow>
      size x < Suc (size_list (size_prod (\<lambda>_. 0) size) kvs)"
    for kvs :: "(string \<times> jsval) list" and k x
    by (induction kvs) (auto split: if_splits)
  have "size r < size v"
  proof (cases v)
    case (JObj kvs)
    with 3 have "map_of kvs ''toJSON'' = Some (JFunction (Some r))"
      by (auto split: option.splits jsval.splits)
    from found[OF this] JObj show ?thesis by simp
  qed (use 3 in simp_all)
  then show ?case by simp
next
  case (4 xs x)
  then have "size x < Suc (size_list size xs)"
    by (auto simp: less_Suc_eq_le intro: size_list_estimation')
  then show ?case by simp
next
  case (5 kvs kv)
  have member: "kv \<in> set kvs \<Longrightarrow> size (snd kv) < Suc (size_list (size_prod (\<lambda>_. 0) size) kvs)"
    for kvs :: "(string \<times> jsval) list"
    by (induction kvs) auto
  from member[OF 5] show ?case by simp
qed

declare serialize.simps(1) [simp del]

text \<open>The values that \<^verbatim>\<open>JSON.parse\<close> returns.\<close>

fun json_data :: "jsval \<Rightarrow> bool" where
  "json_data JNull = True"
| "json_data (JBool b) = True"
| "json_data (JNum n) = True"
| "json_data (JStr s) = True"
| "json_data (JArr xs) = list_all json_data xs"
| "json_data (JObj kvs) = list_all (\<lambda>kv. json_data (snd kv)) kvs"
| "json_data _ = False"

text \<open>\<^verbatim>\<open>JSON.parse(JSON.stringify(value))\<close>; \<open>None\<close> when either call throws. When the
  value is left out at top level, \<^verbatim>\<open>JSON.stringify\<close> returns \<^verbatim>\<open>undefined\<close>, which
  \<^verbatim>\<open>JSON.parse\<close> rejects with a SyntaxError.\<close>

definition JSON_roundtrip :: "jsval \<Rightarrow> jsval option" where
  "JSON_roundtrip v = (case serialize True v of Json w \<Rightarrow> Some w | _ \<Rightarrow> None)"


section \<open>The throttle of the key-value store\<close>

text \<open>
  \<^verbatim>\<open>StorageManager\<close>'s constructor builds
  \<^verbatim>\<open>throttle(() => this.persistStorageData(), 1000, { leading: true, trailing: true })\<close>.
  In lodash, \<^verbatim>\<open>throttle(func, wait, options)\<close> is
  \<^verbatim>\<open>debounce(func, wait, { leading, trailing, maxWait: wait })\<close>; the closure variables of
  that \<^verbatim>\<open>debounce\<close> are the fields below. Time is \<^verbatim>\<open>Date.now()\<close> in milliseconds.
  \<open>lastArgs\<close> records whether \<^verbatim>\<open>lastArgs\<close> is set, \<open>timerId\<close> holds the time at
  which the pending \<^verbatim>\<open>setTimeout\<close> is due. Each function returns the new variables and
  whether \<^verbatim>\<open>func\<close> was invoked.
\<close>

record throttled =
  lastArgs :: bool
  timerId :: "int option"
  lastCallTime :: "int option"
  lastInvokeTime :: int

definition wait :: int where
  "wait = 1000"

definition maxWait :: int where
  "maxWait = wait"

definition throttle_new :: throttled where
  "throttle_new = \<lparr>lastArgs = False, timerId = None, lastCallTime = None, lastInvokeTime = 0\<rparr>"

definition shouldInvoke :: "throttled \<Rightarrow> int \<Rightarrow> bool" where
  "shouldInvoke th time =
     (case lastCallTime th of
        None \<Rightarrow> True
      | Some lc \<Rightarrow> time - lc \<ge> wait \<or> time - lc < 0 \<or> time - lastInvokeTime th \<ge> maxWait)"

definition invokeFunc :: "throttled \<Rightarrow> int \<Rightarrow> throttled \<times> bool" where
  "invokeFunc th time = (th\<lparr>lastArgs := False, lastInvokeTime := time\<rparr>, True)"

definition leadingEdge :: "throttled \<Rightarrow> int \<Rightarrow> throttled \<times> bool" where
  "leadingEdge th time =
     invokeFunc (th\<lparr>lastInvokeTime := time, timerId := Some (time + wait)\<rparr>) time"




text \<open>The throttled function itself (\<^verbatim>\<open>debounced\<close>), called at \<open>time\<close>.\<close>

definition debounced :: "throttled \<Rightarrow> int \<Rightarrow> throttled \<times> bool" where
  "debounced th time =
     (let isInvoking = shouldInvoke th time;
          th1 = th\<lparr>lastArgs := True, lastCallTime := Some time\<rparr>
      in if isInvoking then
           (if timerId th1 = None then leadingEdge th1 time
            else invokeFunc (th1\<lparr>timerId := Some (time + wait)\<rparr>) time)
         else if timerId th1 = None then (th1\<lparr>timerId := Some (time + wait)\<rparr>, False)
         else (th1, False))"

section \<open>Property access on the storage document\<close>

text \<open>
  \<^verbatim>\<open>this.storageData\<close> is an ordinary object: the literal \<^verbatim>\<open>{}\<close> of the constructor, or
  what the backend's \<^verbatim>\<open>loadStorageData\<close> has parsed from \<^verbatim>\<open>storage.json\<close>, a file that
  \<^verbatim>\<open>saveStorageData\<close> writes as the serialisation of this object. The manager reads it
  with \<^verbatim>\<open>this.storageData[key]\<close> and writes it with \<^verbatim>\<open>this.storageData[key] = value\<close>, so
  both go through the prototype chain. The object starts with \<^verbatim>\<open>Object.prototype\<close> as its
  prototype; an assignment to \<^verbatim>\<open>__proto__\<close> that reaches the accessor of
  \<^verbatim>\<open>Object.prototype\<close> replaces the prototype by the assigned value when that is an
  object, an array or \<^verbatim>\<open>null\<close>. The assigned values are fresh results of \<^verbatim>\<open>JSON.parse\<close>,
  whose own prototype is \<^verbatim>\<open>Object.prototype\<close> or \<^verbatim>\<open>Array.prototype\<close>.
\<close>

datatype prototype =
    Object_prototype
  | Null_prototype
  | Parsed_object "(string \<times> jsval) list"
  | Parsed_array "jsval list"

type_synonym properties = "string \<Rightarrow> jsval option"

record document =
  own :: properties
  proto :: prototype

text \<open>What a property read yields: a value of the fragment above, or an object or
  function that the runtime provides, given by its name.\<close>

datatype member = Plain jsval | Builtin string

text \<open>The names of the properties of \<^verbatim>\<open>Object.prototype\<close> and of \<^verbatim>\<open>Array.prototype\<close> in the
  runtime of the server (Node 22). All are writable data properties holding functions,
  except \<^verbatim>\<open>__proto__\<close>, which is an accessor, and \<^verbatim>\<open>length\<close>.\<close>

definition Object_prototype_methods :: "string list" where
  "Object_prototype_methods =
     [''constructor'', ''__defineGetter__'', ''__defineSetter__'', ''hasOwnProperty'',
      ''__lookupGetter__'', ''__lookupSetter__'', ''isPrototypeOf'', ''propertyIsEnumerable'',
      ''toString'', ''valueOf'', ''toLocaleString'']"

definition Array_prototype_methods :: "string list" where
  "Array_prototype_methods =
     [''constructor'', ''at'', ''concat'', ''copyWithin'', ''fill'', ''find'', ''findIndex'',
      ''findLast'', ''findLastIndex'', ''lastIndexOf'', ''pop'', ''push'', ''reverse'', ''shift'',
      ''unshift'', ''slice'', ''sort'', ''splice'', ''includes'', ''indexOf'', ''join'', ''keys'',
      ''entries'', ''values'', ''forEach'', ''filter'', ''flat'', ''flatMap'', ''map'', ''every'',
      ''some'', ''reduce'', ''reduceRight'', ''toReversed'', ''toSorted'', ''toSpliced'', ''with'',
      ''toLocaleString'', ''toString'']"

text \<open>An array index as a property name: the canonical decimal numeral.\<close>

definition array_index :: "string \<Rightarrow> nat option" where
  "array_index cs =
     (if cs = [] \<or> \<not> list_all (\<lambda>c. c \<in> set ''0123456789'') cs \<or> (1 < length cs \<and> hd cs = CHR ''0'')
      then None
      else Some (foldl (\<lambda>n c. 10 * n + (of_char c - 48)) 0 cs))"

text \<open>\<^verbatim>\<open>Object.getPrototypeOf\<close>, as a value.\<close>

fun prototype_value :: "prototype \<Rightarrow> member" where
  "prototype_value Object_prototype = Builtin ''Object.prototype''"
| "prototype_value Null_prototype = Plain JNull"
| "prototype_value (Parsed_object kvs) = Plain (JObj kvs)"
| "prototype_value (Parsed_array xs) = Plain (JArr xs)"

text \<open>A read that has arrived at \<^verbatim>\<open>Object.prototype\<close>; the getter of \<^verbatim>\<open>__proto__\<close> answers
  with the prototype \<open>p\<close> of the object on which the read started.\<close>

definition Object_prototype_get :: "prototype \<Rightarrow> string \<Rightarrow> member" where
  "Object_prototype_get p key =
     (if key = ''__proto__'' then prototype_value p
      else if key = ''constructor'' then Builtin ''Object''
      else if key \<in> set Object_prototype_methods then Builtin (''Object.prototype.'' @ key)
      else Plain JUndefined)"

text \<open>A read that has arrived at an array with the elements \<open>xs\<close>.\<close>

definition array_get :: "prototype \<Rightarrow> jsval list \<Rightarrow> string \<Rightarrow> member" where
  "array_get p xs key =
     (case array_index key of
        Some i \<Rightarrow> (if i < length xs then Plain (xs ! i) else Object_prototype_get p key)
      | None \<Rightarrow>
          (if key = ''length'' then Plain (JNum (int (length xs)))
           else if key = ''constructor'' then Builtin ''Array''
           else if key \<in> set Array_prototype_methods then Builtin (''Array.prototype.'' @ key)
           else Object_prototype_get p key))"

text \<open>\<^verbatim>\<open>doc[key]\<close>.\<close>

definition property_get :: "document \<Rightarrow> string \<Rightarrow> member" where
  "property_get doc key =
     (case own doc key of
        Some v \<Rightarrow> Plain v
      | None \<Rightarrow>
          (case proto doc of
             Null_prototype \<Rightarrow> Plain JUndefined
           | Object_prototype \<Rightarrow> Object_prototype_get (proto doc) key
           | Parsed_object kvs \<Rightarrow>
               (case map_of kvs key of
                  Some v \<Rightarrow> Plain v
                | None \<Rightarrow> Object_prototype_get (proto doc) key)
           | Parsed_array xs \<Rightarrow> array_get (proto doc) xs key))"

text \<open>\<^verbatim>\<open>key in doc\<close>: the document or an object of its prototype chain has the property.\<close>

definition has_property :: "document \<Rightarrow> string \<Rightarrow> bool" where
  "has_property doc key \<longleftrightarrow>
     own doc key \<noteq> None \<or>
     (case proto doc of
        Null_prototype \<Rightarrow> False
      | Object_prototype \<Rightarrow> key \<in> set (''__proto__'' # Object_prototype_methods)
      | Parsed_object kvs \<Rightarrow>
          map_of kvs key \<noteq> None \<or> key \<in> set (''__proto__'' # Object_prototype_methods)
      | Parsed_array xs \<Rightarrow>
          (case array_index key of Some i \<Rightarrow> i < length xs | None \<Rightarrow> False) \<or>
          key = ''length'' \<or> key \<in> set Array_prototype_methods \<or>
          key \<in> set (''__proto__'' # Object_prototype_methods))"

text \<open>Whether an assignment to \<^verbatim>\<open>__proto__\<close> arrives at the accessor of
  \<^verbatim>\<open>Object.prototype\<close>: no data property of that name lies before it on the chain.\<close>

definition reaches_accessor :: "document \<Rightarrow> bool" where
  "reaches_accessor doc \<longleftrightarrow>
     own doc ''__proto__'' = None \<and>
     (case proto doc of
        Null_prototype \<Rightarrow> False
      | Object_prototype \<Rightarrow> True
      | Parsed_object kvs \<Rightarrow> map_of kvs ''__proto__'' = None
      | Parsed_array xs \<Rightarrow> True)"

text \<open>The setter of \<^verbatim>\<open>__proto__\<close>: it ignores a value that is neither an object nor
  \<^verbatim>\<open>null\<close>.\<close>

fun set_prototype :: "document \<Rightarrow> jsval \<Rightarrow> document" where
  "set_prototype doc (JObj kvs) = doc\<lparr>proto := Parsed_object kvs\<rparr>"
| "set_prototype doc (JArr xs) = doc\<lparr>proto := Parsed_array xs\<rparr>"
| "set_prototype doc JNull = doc\<lparr>proto := Null_prototype\<rparr>"
| "set_prototype doc _ = doc"

text \<open>\<^verbatim>\<open>doc[key] = v\<close>. Every other property found on the chain is a writable data property,
  so the assignment creates or updates an own property of the document.\<close>

definition property_set :: "document \<Rightarrow> string \<Rightarrow> jsval \<Rightarrow> document" where
  "property_set doc key v =
     (if key = ''__proto__'' \<and> reaches_accessor doc then set_prototype doc v
      else doc\<lparr>own := (own doc)(key \<mapsto> v)\<rparr>)"

definition empty_object :: document where
  "empty_object = \<lparr>own = Map.empty, proto = Object_prototype\<rparr>"


section \<open>Key-value store of the storage manager\<close>

text \<open>
  The fields of \<^verbatim>\<open>StorageManager\<close> that the key-value layer uses. \<open>saved\<close> lists, oldest
  first, what was handed to the backend's \<^verbatim>\<open>saveStorageData\<close>; both backends serialise
  the document with \<^verbatim>\<open>JSON.stringify\<close> when they are called, which writes its own
  properties and nothing of its prototype.
\<close>

record storage_manager =
  storageData :: document
  storageLoaded :: bool
  throttle :: throttled
  saved :: "properties list"

definition StorageManager_new :: storage_manager where
  "StorageManager_new =
     \<lparr>storageData = empty_object, storageLoaded = False, throttle = throttle_new, saved = []\<rparr>"

text \<open>\<^verbatim>\<open>initStorageData\<close>: the backend's \<^verbatim>\<open>loadStorageData\<close> has answered with the parsed
  object, given by its properties (\<open>Inr\<close>), or has thrown (\<open>Inl\<close>).\<close>

definition initStorageData :: "storage_manager \<Rightarrow> string + properties \<Rightarrow> storage_manager" where
  "initStorageData s loaded =
     (case loaded of
        Inr d \<Rightarrow> s\<lparr>storageData := \<lparr>own = d, proto = Object_prototype\<rparr>, storageLoaded := True\<rparr>
      | Inl err \<Rightarrow> s\<lparr>storageData := empty_object, storageLoaded := True\<rparr>)"

definition getStorageValue :: "storage_manager \<Rightarrow> string \<Rightarrow> member" where
  "getStorageValue s key =
     (if \<not> storageLoaded s then Plain JUndefined
      else property_get (storageData s) key)"

definition persistStorageData :: "storage_manager \<Rightarrow> storage_manager" where
  "persistStorageData s =
     (if \<not> storageLoaded s then s
      else s\<lparr>saved := saved s @ [own (storageData s)]\<rparr>)"

text \<open>A call of the throttled \<^verbatim>\<open>this.saveStorageData()\<close> at \<open>time\<close>.\<close>

definition saveStorageData :: "storage_manager \<Rightarrow> int \<Rightarrow> storage_manager" where
  "saveStorageData s time =
     (case debounced (throttle s) time of
        (th, invoked) \<Rightarrow>
          (if invoked then persistStorageData (s\<lparr>throttle := th\<rparr>) else s\<lparr>throttle := th\<rparr>))"

definition setStorageValue :: "storage_manager \<Rightarrow> int \<Rightarrow> string \<Rightarrow> jsval \<Rightarrow> storage_manager" where
  "setStorageValue s time key val =
     (if \<not> storageLoaded s then s
      else (case JSON_roundtrip val of
              None \<Rightarrow> s
            | Some v \<Rightarrow> saveStorageData (s\<lparr>storageData := property_set (storageData s) key v\<rparr>) time))"


text \<open>\<^verbatim>\<open>forceStorageDataPersist\<close> bypasses the throttle.\<close>

definition forceStorageDataPersist :: "storage_manager \<Rightarrow> storage_manager" where
  "forceStorageDataPersist s = persistStorageData s"



section \<open>Ordering of the collection list\<close>

text \<open>
  \<^verbatim>\<open>initCollectionsFromStorage\<close> pushes one entry \<^verbatim>\<open>{ id, name, blueprints }\<close> per
  collection and then sorts the list in place:
  \<^verbatim>\<open>collections.sort((a, b) => { if (a.id === 'default') return -1;
      if (b.id === 'default') return 1; return a.id.localeCompare(b.id) })\<close>.
  \<^verbatim>\<open>String.prototype.localeCompare\<close> is the collation of the host; it is a parameter
  \<open>lc\<close> of the model.
\<close>

record 'b collection =
  id' :: string
  name :: string
  blueprints :: "'b list"

definition compare_collections ::
  "(string \<Rightarrow> string \<Rightarrow> int) \<Rightarrow> 'b collection \<Rightarrow> 'b collection \<Rightarrow> int" where
  "compare_collections lc a b =
     (if id' a = ''default'' then - 1
      else if id' b = ''default'' then 1
      else lc (id' a) (id' b))"

text \<open>
  \<^verbatim>\<open>Array.prototype.sort\<close> is stable; for a comparator that orders its arguments
  consistently, its result is the one stable sorted arrangement, which insertion from the
  right computes: an element goes in front of the first later element that the comparator
  does not put before it.
\<close>

fun insert_sorted :: "('a \<Rightarrow> 'a \<Rightarrow> int) \<Rightarrow> 'a \<Rightarrow> 'a list \<Rightarrow> 'a list" where
  "insert_sorted cmp x [] = [x]"
| "insert_sorted cmp x (y # ys) =
     (if cmp x y \<le> 0 then x # y # ys else y # insert_sorted cmp x ys)"

definition Array_sort :: "('a \<Rightarrow> 'a \<Rightarrow> int) \<Rightarrow> 'a list \<Rightarrow> 'a list" where
  "Array_sort cmp xs = foldr (insert_sorted cmp) xs []"

definition sort_collections ::
  "(string \<Rightarrow> string \<Rightarrow> int) \<Rightarrow> 'b collection list \<Rightarrow> 'b collection list" where
  "sort_collections lc cs = Array_sort (compare_collections lc) cs"

text \<open>What a collation has to satisfy to be a consistent comparator: swapping the arguments
  swaps the sign, and "not after" is transitive.\<close>

definition consistent_comparator :: "(string \<Rightarrow> string \<Rightarrow> int) \<Rightarrow> bool" where
  "consistent_comparator lc \<longleftrightarrow>
     (\<forall>a b. (lc a b < 0) = (lc b a > 0)) \<and>
     (\<forall>a b c. lc a b \<le> 0 \<and> lc b c \<le> 0 \<longrightarrow> lc a c \<le> 0)"

text \<open>Comparison by code units, with which \<^verbatim>\<open>localeCompare\<close> agrees on words of lower-case
  ASCII letters.\<close>

fun codeunit_compare :: "string \<Rightarrow> string \<Rightarrow> int" where
  "codeunit_compare [] [] = 0"
| "codeunit_compare [] (y # ys) = - 1"
| "codeunit_compare (x # xs) [] = 1"
| "codeunit_compare (x # xs) (y # ys) =
     (if (of_char x :: nat) < of_char y then - 1
      else if (of_char y :: nat) < of_char x then 1
      else codeunit_compare xs ys)"

section \<open>Backend adapters\<close>

type_synonym buffer = "nat list"

text \<open>The bundled built-in content (\<^verbatim>\<open>src/world/assets\<close>, \<^verbatim>\<open>src/world/collections\<close>): a
  directory is the list of its entries, in the order in which it is read.\<close>

datatype entry =
    File string buffer
  | Dir string "entry list"

subsection \<open>Local file system: \<^verbatim>\<open>FileStorage\<close>\<close>

text \<open>
  A stored file has its bytes and its modification time. \<open>assets\<close> and \<open>collections\<close>
  are the files below \<^verbatim>\<open>assetsDir\<close> and \<^verbatim>\<open>collectionsDir\<close>, by their path relative to
  that directory. A file name given to the adapter is such a path, in the form in which
  \<^verbatim>\<open>path.join\<close> leaves it, and names a file, not a directory: the names of uploads are
  derived from the hash of the content, \<^verbatim>\<open>hash.ext\<close>. The environment says which writes
  fail and which directories cannot be created. A content type is whatever value the
  caller passes.
\<close>

record local_file =
  data :: buffer
  mtime :: int

record file_storage =
  assetsUrl :: string
  assets :: "string \<Rightarrow> local_file option"
  collections :: "string \<Rightarrow> local_file option"

record local_env =
  writeFile_fails :: "string \<Rightarrow> bool"
  ensureDir_fails :: "string \<Rightarrow> bool"

datatype io_error = IOError string

text \<open>\<^verbatim>\<open>uploadFile(filename, buffer, contentType)\<close> at time \<open>now\<close>: the locator, and the
  storage after the call.\<close>

definition FileStorage_uploadFile ::
  "local_env \<Rightarrow> file_storage \<Rightarrow> int \<Rightarrow> string \<Rightarrow> buffer \<Rightarrow> member
     \<Rightarrow> io_error + (string \<times> file_storage)" where
  "FileStorage_uploadFile env fs now filename buf contentType =
     (let exists = (assets fs filename \<noteq> None) in
      if \<not> exists then
        (if writeFile_fails env (''assets/'' @ filename) then Inl (IOError (''assets/'' @ filename))
         else Inr (assetsUrl fs @ ''/'' @ filename,
                   fs\<lparr>assets := (assets fs)(filename \<mapsto> \<lparr>data = buf, mtime = now\<rparr>)\<rparr>))
      else Inr (assetsUrl fs @ ''/'' @ filename, fs))"

definition FileStorage_fileExists :: "file_storage \<Rightarrow> string \<Rightarrow> bool" where
  "FileStorage_fileExists fs filename = (assets fs filename \<noteq> None)"

definition FileStorage_getPublicUrl :: "file_storage \<Rightarrow> string \<Rightarrow> string" where
  "FileStorage_getPublicUrl fs filename = assetsUrl fs @ ''/'' @ filename"

text \<open>
  \<^verbatim>\<open>fs.copy(src, dest)\<close> of fs-extra with its default options (\<^verbatim>\<open>overwrite: true\<close>): every
  file of the source tree is written to the same relative path below the destination,
  whether or not a file is there already; the first write that fails rejects the copy.
  \<open>root\<close> names the destination directory for the environment, \<open>prefix\<close> is the path
  inside it.
\<close>

fun fs_copy_entry ::
    "local_env \<Rightarrow> int \<Rightarrow> string \<Rightarrow> string \<Rightarrow> entry \<Rightarrow> (string \<Rightarrow> local_file option)
       \<Rightarrow> io_error + (string \<Rightarrow> local_file option)"
  and fs_copy_entries ::
    "local_env \<Rightarrow> int \<Rightarrow> string \<Rightarrow> string \<Rightarrow> entry list \<Rightarrow> (string \<Rightarrow> local_file option)
       \<Rightarrow> io_error + (string \<Rightarrow> local_file option)" where
  "fs_copy_entry env now root prefix (File n b) m =
     (if writeFile_fails env (root @ prefix @ n) then Inl (IOError (root @ prefix @ n))
      else Inr (m(prefix @ n \<mapsto> \<lparr>data = b, mtime = now\<rparr>)))"
| "fs_copy_entry env now root prefix (Dir n es) m =
     fs_copy_entries env now root (prefix @ n @ ''/'') es m"
| "fs_copy_entries env now root prefix [] m = Inr m"
| "fs_copy_entries env now root prefix (e # es) m =
     (case fs_copy_entry env now root prefix e m of
        Inl err \<Rightarrow> Inl err
      | Inr m' \<Rightarrow> fs_copy_entries env now root prefix es m')"

text \<open>\<^verbatim>\<open>FileStorage.initialize\<close>. \<open>builtInAssets\<close> and \<open>builtInCollections\<close> are the bundled
  trees, \<open>None\<close> when the directory does not exist.\<close>

definition FileStorage_initialize ::
  "local_env \<Rightarrow> int \<Rightarrow> entry list option \<Rightarrow> entry list option \<Rightarrow> file_storage
     \<Rightarrow> io_error + file_storage" where
  "FileStorage_initialize env now builtInAssets builtInCollections fs =
     (if ensureDir_fails env ''world'' then Inl (IOError ''world'')
      else if ensureDir_fails env ''assets'' then Inl (IOError ''assets'')
      else if ensureDir_fails env ''collections'' then Inl (IOError ''collections'')
      else
        (case (case builtInAssets of
                 None \<Rightarrow> Inr (assets fs)
               | Some es \<Rightarrow> fs_copy_entries env now ''assets/'' [] es (assets fs)) of
           Inl err \<Rightarrow> Inl err
         | Inr a \<Rightarrow>
             (case (case builtInCollections of
                      None \<Rightarrow> Inr (collections fs)
                    | Some es \<Rightarrow> fs_copy_entries env now ''collections/'' [] es (collections fs)) of
                Inl err \<Rightarrow> Inl err
              | Inr c \<Rightarrow> Inr (fs\<lparr>assets := a, collections := c\<rparr>))))"

subsection \<open>Object store: \<^verbatim>\<open>AwsS3Storage\<close>\<close>

record s3_config =
  bucketName :: string
  region :: string
  assetsPrefix :: string
  collectionsPrefix :: string
  storagePrefix :: string
  cloudfrontUrl :: "string option"

record s3_object =
  body :: buffer
  contentType :: member
  cacheControl :: "string option"
  lastModified :: int

type_synonym bucket = "string \<Rightarrow> s3_object option"

datatype s3_request =
    HeadObject string
  | PutObject string
  | ListObjectsV2 string

text \<open>How \<^verbatim>\<open>client.send\<close> can fail: the service's answer that there is no such object
  (\<^verbatim>\<open>error.name === 'NotFound'\<close>), or any other failure, with its name.\<close>

datatype s3_error = NotFound | ServiceError string

text \<open>The environment: which requests the service fails, which local files cannot be read
  and which local directories cannot be listed.\<close>

record s3_env =
  s3_fault :: "s3_request \<Rightarrow> string option"
  readFile_fails :: "string \<Rightarrow> bool"
  readdir_fails :: "string \<Rightarrow> bool"

definition send_HeadObject :: "s3_env \<Rightarrow> bucket \<Rightarrow> string \<Rightarrow> s3_error + s3_object" where
  "send_HeadObject env b key =
     (case s3_fault env (HeadObject key) of
        Some e \<Rightarrow> Inl (ServiceError e)
      | None \<Rightarrow> (case b key of None \<Rightarrow> Inl NotFound | Some obj \<Rightarrow> Inr obj))"

text \<open>A \<^verbatim>\<open>PutObjectCommand\<close> at time \<open>now\<close> stores the object under the key, replacing
  whatever was there.\<close>

definition send_PutObject ::
  "s3_env \<Rightarrow> bucket \<Rightarrow> int \<Rightarrow> string \<Rightarrow> buffer \<Rightarrow> member \<Rightarrow> string option
     \<Rightarrow> s3_error + bucket" where
  "send_PutObject env b now key buf ctype cc =
     (case s3_fault env (PutObject key) of
        Some e \<Rightarrow> Inl (ServiceError e)
      | None \<Rightarrow>
          Inr (b(key \<mapsto> \<lparr>body = buf, contentType = ctype, cacheControl = cc,
                           lastModified = now\<rparr>)))"

definition getS3BaseUrl :: "s3_config \<Rightarrow> string" where
  "getS3BaseUrl cfg = ''https://'' @ bucketName cfg @ ''.s3.'' @ region cfg @ ''.amazonaws.com''"

definition AwsS3Storage_uploadFile ::
  "s3_config \<Rightarrow> s3_env \<Rightarrow> bucket \<Rightarrow> int \<Rightarrow> string \<Rightarrow> buffer \<Rightarrow> member
     \<Rightarrow> s3_error + (string \<times> bucket)" where
  "AwsS3Storage_uploadFile cfg env b now filename buf ctype =
     (let key = assetsPrefix cfg @ filename in
      case send_PutObject env b now key buf ctype (Some ''public, max-age=31536000, immutable'') of
        Inl err \<Rightarrow> Inl err
      | Inr b' \<Rightarrow> Inr (getS3BaseUrl cfg @ ''/'' @ key, b'))"

definition AwsS3Storage_fileExists ::
  "s3_config \<Rightarrow> s3_env \<Rightarrow> bucket \<Rightarrow> string \<Rightarrow> s3_error + bool" where
  "AwsS3Storage_fileExists cfg env b filename =
     (case send_HeadObject env b (assetsPrefix cfg @ filename) of
        Inr obj \<Rightarrow> Inr True
      | Inl NotFound \<Rightarrow> Inr False
      | Inl (ServiceError e) \<Rightarrow> Inl (ServiceError e))"

text \<open>\<^verbatim>\<open>getContentType(filename)\<close>: the text after the last dot of the lower-cased name (the
  whole name when it has no dot), looked up in the table with \<^verbatim>\<open>mimeTypes[ext]\<close>. The
  table is an object literal, so the lookup of a name that the table does not hold goes
  on to \<^verbatim>\<open>Object.prototype\<close>; what it finds there is not falsy and is returned in place
  of the default.\<close>

definition toLowerCase :: "string \<Rightarrow> string" where
  "toLowerCase s =
     map (\<lambda>c. if 65 \<le> (of_char c :: nat) \<and> (of_char c :: nat) \<le> 90
               then char_of ((of_char c :: nat) + 32) else c) s"

definition split_pop :: "string \<Rightarrow> string" where
  "split_pop s = rev (takeWhile (\<lambda>c. c \<noteq> CHR ''.'') (rev s))"

definition mimeTypes :: "(string \<times> string) list" where
  "mimeTypes =
     [(''json'', ''application/json''),
      (''js'', ''application/javascript''),
      (''glb'', ''application/octet-stream''),
      (''gltf'', ''application/json''),
      (''jpg'', ''image/jpeg''),
      (''jpeg'', ''image/jpeg''),
      (''png'', ''image/png''),
      (''gif'', ''image/gif''),
      (''webp'', ''image/webp''),
      (''mp3'', ''audio/mpeg''),
      (''wav'', ''audio/wav''),
      (''mp4'', ''video/mp4''),
      (''webm'', ''video/webm''),
      (''txt'', ''text/plain''),
      (''html'', ''text/html''),
      (''css'', ''text/css'')]"

definition getContentType :: "string \<Rightarrow> member" where
  "getContentType filename =
     (let ext = split_pop (toLowerCase filename) in
      case map_of mimeTypes ext of
        Some t \<Rightarrow> Plain (JStr t)
      | None \<Rightarrow>
          (case Object_prototype_get Object_prototype ext of
             Plain JUndefined \<Rightarrow> Plain (JStr ''application/octet-stream'')
           | inherited \<Rightarrow> inherited))"

text \<open>What \<^verbatim>\<open>copyDirectoryToS3\<close> writes to the console.\<close>

datatype seed_log =
    AlreadyExists string
  | Copied string
  | ErrorCopying string
  | ErrorChecking string

text \<open>The body of the loop of \<^verbatim>\<open>copyDirectoryToS3\<close> for an entry that is a file.\<close>

definition copyFileToS3 ::
  "s3_env \<Rightarrow> int \<Rightarrow> string \<Rightarrow> string \<Rightarrow> string \<Rightarrow> buffer \<Rightarrow> bucket \<times> seed_log list
     \<Rightarrow> bucket \<times> seed_log list" where
  "copyFileToS3 env now localPath s3Key fname buf st =
     (case send_HeadObject env (fst st) s3Key of
        Inr obj \<Rightarrow> (fst st, snd st @ [AlreadyExists s3Key])
      | Inl NotFound \<Rightarrow>
          (if readFile_fails env localPath then (fst st, snd st @ [ErrorCopying localPath])
           else (case send_PutObject env (fst st) now s3Key buf (getContentType fname) None of
                   Inl err \<Rightarrow> (fst st, snd st @ [ErrorCopying localPath])
                 | Inr b' \<Rightarrow> (b', snd st @ [Copied s3Key])))
      | Inl (ServiceError e) \<Rightarrow> (fst st, snd st @ [ErrorChecking s3Key]))"

text \<open>
  \<^verbatim>\<open>copyDirectoryToS3(localDir, s3Prefix)\<close> lists the directory and runs its loop over
  the entries; for an entry that is a directory it calls itself. The first component of
  the result says whether the call threw, which it does when a directory cannot be listed;
  the bucket and the console are as they were left. \<open>copyEntriesToS3\<close> is the loop,
  \<open>copyEntryToS3\<close> its body.
\<close>

fun copyEntryToS3 ::
    "s3_env \<Rightarrow> int \<Rightarrow> string \<Rightarrow> string \<Rightarrow> entry \<Rightarrow> bucket \<times> seed_log list
       \<Rightarrow> bool \<times> bucket \<times> seed_log list"
  and copyEntriesToS3 ::
    "s3_env \<Rightarrow> int \<Rightarrow> string \<Rightarrow> string \<Rightarrow> entry list \<Rightarrow> bucket \<times> seed_log list
       \<Rightarrow> bool \<times> bucket \<times> seed_log list" where
  "copyEntryToS3 env now localDir s3Prefix (File n buf) st =
     (False, copyFileToS3 env now (localDir @ ''/'' @ n) (s3Prefix @ n) n buf st)"
| "copyEntryToS3 env now localDir s3Prefix (Dir n es) st =
     (if readdir_fails env (localDir @ ''/'' @ n) then (True, st)
      else copyEntriesToS3 env now (localDir @ ''/'' @ n) (s3Prefix @ n @ ''/'') es st)"
| "copyEntriesToS3 env now localDir s3Prefix [] st = (False, st)"
| "copyEntriesToS3 env now localDir s3Prefix (e # es) st =
     (let r = copyEntryToS3 env now localDir s3Prefix e st
      in if fst r then r else copyEntriesToS3 env now localDir s3Prefix es (snd r))"

definition copyDirectoryToS3 ::
  "s3_env \<Rightarrow> int \<Rightarrow> string \<Rightarrow> string \<Rightarrow> entry list \<Rightarrow> bucket \<times> seed_log list
     \<Rightarrow> bool \<times> bucket \<times> seed_log list" where
  "copyDirectoryToS3 env now localDir s3Prefix es st =
     (if readdir_fails env localDir then (True, st)
      else copyEntriesToS3 env now localDir s3Prefix es st)"

text \<open>\<^verbatim>\<open>copyBuiltInContent\<close> catches whatever the copies throw, so it always returns.\<close>

definition copyBuiltInContent ::
  "s3_config \<Rightarrow> s3_env \<Rightarrow> int \<Rightarrow> entry list option \<Rightarrow> entry list option
     \<Rightarrow> bucket \<times> seed_log list \<Rightarrow> bucket \<times> seed_log list" where
  "copyBuiltInContent cfg env now builtInAssets builtInCollections st =
     (let r = (case builtInAssets of
                 None \<Rightarrow> (False, st)
               | Some es \<Rightarrow>
                   copyDirectoryToS3 env now ''src/world/assets'' (assetsPrefix cfg) es st)
      in if fst r then snd r
         else (case builtInCollections of
                 None \<Rightarrow> snd r
               | Some es \<Rightarrow>
                   snd (copyDirectoryToS3 env now ''src/world/collections''
                          (collectionsPrefix cfg) es (snd r))))"

text \<open>\<^verbatim>\<open>AwsS3Storage.initialize\<close>: the probe of the bucket, then the seeding.\<close>

definition AwsS3Storage_initialize ::
  "s3_config \<Rightarrow> s3_env \<Rightarrow> int \<Rightarrow> entry list option \<Rightarrow> entry list option
     \<Rightarrow> bucket \<times> seed_log list \<Rightarrow> string + (bucket \<times> seed_log list)" where
  "AwsS3Storage_initialize cfg env now builtInAssets builtInCollections st =
     (case s3_fault env (ListObjectsV2 (assetsPrefix cfg)) of
        Some e \<Rightarrow> Inl (''S3 initialization failed: '' @ e)
      | None \<Rightarrow> Inr (copyBuiltInContent cfg env now builtInAssets builtInCollections st))"

text \<open>The files of a bundled tree, each with the local path it is read from, the key it
  is stored under, its name and its bytes.\<close>

fun entry_files :: "string \<Rightarrow> string \<Rightarrow> entry \<Rightarrow> (string \<times> string \<times> string \<times> buffer) list"
  and entries_files :: "string \<Rightarrow> string \<Rightarrow> entry list \<Rightarrow> (string \<times> string \<times> string \<times> buffer) list"
  where
  "entry_files localDir s3Prefix (File n buf) = [(localDir @ ''/'' @ n, s3Prefix @ n, n, buf)]"
| "entry_files localDir s3Prefix (Dir n es) =
     entries_files (localDir @ ''/'' @ n) (s3Prefix @ n @ ''/'') es"
| "entries_files localDir s3Prefix [] = []"
| "entries_files localDir s3Prefix (e # es) =
     entry_files localDir s3Prefix e @ entries_files localDir s3Prefix es"

text \<open>All files that \<^verbatim>\<open>copyBuiltInContent\<close> visits, assets first.\<close>

definition bundled_files ::
  "s3_config \<Rightarrow> entry list option \<Rightarrow> entry list option
     \<Rightarrow> (string \<times> string \<times> string \<times> buffer) list" where
  "bundled_files cfg builtInAssets builtInCollections =
     (case builtInAssets of
        None \<Rightarrow> []
      | Some es \<Rightarrow> entries_files ''src/world/assets'' (assetsPrefix cfg) es) @
     (case builtInCollections of
        None \<Rightarrow> []
      | Some es \<Rightarrow> entries_files ''src/world/collections'' (collectionsPrefix cfg) es)"

text \<open>One of the three steps for a file (existence check, local read, upload) fails.\<close>

definition file_step_fails :: "s3_env \<Rightarrow> string \<Rightarrow> string \<Rightarrow> bool" where
  "file_step_fails env localPath s3Key \<longleftrightarrow>
     s3_fault env (HeadObject s3Key) \<noteq> None \<or> readFile_fails env localPath \<or>
     s3_fault env (PutObject s3Key) \<noteq> None"

text \<open>The loop body applied to a list of files, in order.\<close>

definition copyFiles ::
  "s3_env \<Rightarrow> int \<Rightarrow> (string \<times> string \<times> string \<times> buffer) list \<Rightarrow> bucket \<times> seed_log list
     \<Rightarrow> bucket \<times> seed_log list" where
  "copyFiles env now fs st =
     foldl (\<lambda>st f. copyFileToS3 env now (fst f) (fst (snd f)) (fst (snd (snd f)))
                     (snd (snd (snd f))) st) st fs"

text \<open>The files of a bundled tree with their paths relative to the destination of
  \<^verbatim>\<open>fs.copy\<close>.\<close>

fun entry_paths :: "string \<Rightarrow> entry \<Rightarrow> (string \<times> buffer) list"
  and entries_paths :: "string \<Rightarrow> entry list \<Rightarrow> (string \<times> buffer) list" where
  "entry_paths prefix (File n b) = [(prefix @ n, b)]"
| "entry_paths prefix (Dir n es) = entries_paths (prefix @ n @ ''/'') es"
| "entries_paths prefix [] = []"
| "entries_paths prefix (e # es) = entry_paths prefix e @ entries_paths prefix es"

definition tree_paths :: "entry list option \<Rightarrow> (string \<times> buffer) list" where
  "tree_paths t = (case t of None \<Rightarrow> [] | Some es \<Rightarrow> entries_paths [] es)"

text \<open>Writing a list of files, in order, at time \<open>now\<close>.\<close>

definition write_all ::
  "int \<Rightarrow> (string \<times> buffer) list \<Rightarrow> (string \<Rightarrow> local_file option) \<Rightarrow> (string \<Rightarrow> local_file option)"
  where
  "write_all now fs m = foldl (\<lambda>m f. m(fst f \<mapsto> \<lparr>data = snd f, mtime = now\<rparr>)) m fs"

subsection \<open>Concrete stores and environments\<close>

definition hashed_png :: string where
  "hashed_png = replicate 64 (CHR ''a'') @ ''.png''"

definition example_s3_config :: s3_config where
  "example_s3_config =
     \<lparr>bucketName = ''world'', region = ''us-east-1'', assetsPrefix = ''assets/'',
      collectionsPrefix = ''collections/'', storagePrefix = ''storage/'', cloudfrontUrl = None\<rparr>"

text \<open>An environment in which nothing fails, and one in which the existence check for
  \<^verbatim>\<open>assets/bad.glb\<close> fails.\<close>

definition quiet_s3_env :: s3_env where
  "quiet_s3_env =
     \<lparr>s3_fault = (\<lambda>r. None), readFile_fails = (\<lambda>p. False), readdir_fails = (\<lambda>d. False)\<rparr>"

definition flaky_s3_env :: s3_env where
  "flaky_s3_env =
     \<lparr>s3_fault = (\<lambda>r. if r = HeadObject ''assets/bad.glb'' then Some ''AccessDenied'' else None),
      readFile_fails = (\<lambda>p. False), readdir_fails = (\<lambda>d. False)\<rparr>"

definition quiet_local_env :: local_env where
  "quiet_local_env = \<lparr>writeFile_fails = (\<lambda>p. False), ensureDir_fails = (\<lambda>d. False)\<rparr>"

definition full_disk_env :: local_env where
  "full_disk_env = \<lparr>writeFile_fails = (\<lambda>p. True), ensureDir_fails = (\<lambda>d. False)\<rparr>"

definition example_assets :: "entry list" where
  "example_assets = [File ''crash-block.glb'' [1, 2], File ''bad.glb'' [3], Dir ''sub'' [File ''x.png'' [4]]]"

definition example_collections :: "entry list" where
  "example_collections = [Dir ''default'' [File ''manifest.json'' [7]]]"

text \<open>A bucket that already holds an older manifest of the default collection, and a local
  store that already holds an older \<^verbatim>\<open>crash-block.glb\<close>.\<close>

definition example_bucket :: bucket where
  "example_bucket =
     [''collections/default/manifest.json'' \<mapsto>
        \<lparr>body = [9], contentType = Plain (JStr ''application/json''), cacheControl = None,
         lastModified = 10\<rparr>]"

definition example_file_storage :: file_storage where
  "example_file_storage =
     \<lparr>assetsUrl = ''/assets'',
      assets = [''crash-block.glb'' \<mapsto> \<lparr>data = [9], mtime = 10\<rparr>],
      collections = Map.empty\<rparr>"

section \<open>Asset loaders\<close>

subsection \<open>Strings\<close>

fun startsWith :: "string \<Rightarrow> string \<Rightarrow> bool" where
  "startsWith s [] = True"
| "startsWith [] (p # ps) = False"
| "startsWith (c # cs) (p # ps) = (c = p \<and> startsWith cs ps)"

fun includes' :: "string \<Rightarrow> string \<Rightarrow> bool" where
  "includes' [] p = (p = [])"
| "includes' (c # cs) p = (startsWith (c # cs) p \<or> includes' cs p)"

text \<open>A number in a template literal: its decimal digits.\<close>

definition digit :: "nat \<Rightarrow> char" where
  "digit d = ''0123456789'' ! d"

function show_nat :: "nat \<Rightarrow> string" where
  "show_nat n = (if n < 10 then [digit n] else show_nat (n div 10) @ [digit (n mod 10)])"
  by pat_completeness auto
termination
  by (relation "measure (\<lambda>n. n)") auto

text \<open>The regular expression \<^verbatim>\<open>/[a-f0-9]{64}\.glb/\<close>: somewhere in the string, 64 characters
  from \<^verbatim>\<open>a-f0-9\<close> followed by \<^verbatim>\<open>.glb\<close>.\<close>

definition hex_lower :: "char \<Rightarrow> bool" where
  "hex_lower c \<longleftrightarrow> c \<in> set ''abcdef0123456789''"

definition hash_glb_here :: "string \<Rightarrow> bool" where
  "hash_glb_here s \<longleftrightarrow>
     64 \<le> length s \<and> list_all hex_lower (take 64 s) \<and> startsWith (drop 64 s) ''.glb''"

fun match_hash_glb :: "string \<Rightarrow> bool" where
  "match_hash_glb [] = False"
| "match_hash_glb (c # cs) = (hash_glb_here (c # cs) \<or> match_hash_glb cs)"

subsection \<open>The world around a loader\<close>

text \<open>
  What a loader gets from outside: \<^verbatim>\<open>world.resolveURL\<close>, the answers of \<^verbatim>\<open>fetch\<close> and of
  the file system, the parsers and the script evaluator. A GLTF parse succeeds, throws, or
  reports an error to its error callback; \<^verbatim>\<open>ServerLoader.load\<close> passes no error callback,
  so that there nothing more happens. \<open>THREE_GLTFLoader_parse\<close> stands for
  \<^verbatim>\<open>new THREE.GLTFLoader()\<close> and its \<^verbatim>\<open>parse\<close> in \<^verbatim>\<open>loadModel\<close>, which throws when no
  global \<^verbatim>\<open>THREE\<close> is defined.
\<close>

record http_response =
  ok :: bool
  status :: nat
  statusText :: string
  content_type :: "string option"
  arrayBuffer :: buffer
  body_text :: string

datatype fetch_result = FetchThrows string | Response http_response

datatype parse_result = Parsed | ParseThrows string | ParseError string

datatype asset =
    Model buffer
  | Emote buffer string
  | AvatarStub
  | Script string
  | Other string buffer

datatype client_parse_result = CParsed asset | CThrows string | CSilent

record world_env =
  resolveURL :: "string \<Rightarrow> string"
  fetch :: "string \<Rightarrow> fetch_result"
  readFile :: "string \<Rightarrow> string + buffer"
  readFile_utf8 :: "string \<Rightarrow> string + string"
  gltfLoader_parse :: "buffer \<Rightarrow> parse_result"
  THREE_GLTFLoader_parse :: "buffer \<Rightarrow> parse_result"
  scripts_evaluate_throws :: "string \<Rightarrow> string option"
  client_fetch :: "string \<Rightarrow> string + buffer"
  client_parse :: "string \<Rightarrow> buffer \<Rightarrow> client_parse_result"
  client_insert_parse :: "string \<Rightarrow> buffer \<Rightarrow> client_parse_result"

text \<open>\<^verbatim>\<open>fetchArrayBuffer(url)\<close>; \<open>Inl\<close> carries the message of the error it throws.\<close>

definition fetchArrayBuffer :: "world_env \<Rightarrow> string \<Rightarrow> string + buffer" where
  "fetchArrayBuffer env url =
     (let isRemote = startsWith url ''http://'' \<or> startsWith url ''https://'' in
      if isRemote then
        (case fetch env url of
           FetchThrows msg \<Rightarrow> Inl msg
         | Response r \<Rightarrow>
             (if \<not> ok r then
                Inl (''HTTP '' @ show_nat (status r) @ '': '' @ statusText r @ '' for '' @ url)
              else
                (let contentType = (case content_type r of None \<Rightarrow> [] | Some c \<Rightarrow> c) in
                 if includes' contentType ''text/xml'' \<or> includes' contentType ''application/xml''
                 then Inl (''File not found or access denied: '' @ url)
                 else Inr (arrayBuffer r))))
      else
        (let filePath = (if startsWith url ''file://'' then drop 7 url else url) in
         readFile env filePath))"

definition fetchText :: "world_env \<Rightarrow> string \<Rightarrow> string + string" where
  "fetchText env url =
     (let isRemote = startsWith url ''http://'' \<or> startsWith url ''https://'' in
      if isRemote then
        (case fetch env url of
           FetchThrows msg \<Rightarrow> Inl msg
         | Response r \<Rightarrow> Inr (body_text r))
      else readFile_utf8 env url)"

subsection \<open>\<^verbatim>\<open>ServerLoader.loadModel\<close> and its fallback\<close>

definition builtInAssets :: "string list" where
  "builtInAssets =
     [''crash-block.glb'', ''emote-idle.glb'', ''emote-walk.glb'', ''emote-run.glb'',
      ''emote-jump.glb'', ''emote-fall.glb'', ''emote-flip.glb'', ''emote-float.glb'',
      ''emote-talk.glb'']"

definition tryGetBuiltInFallback :: "world_env \<Rightarrow> string \<Rightarrow> string \<Rightarrow> string option" where
  "tryGetBuiltInFallback env originalUrl resolvedUrl =
     (if \<not> match_hash_glb resolvedUrl then None
      else
        (case find (\<lambda>builtIn. includes' originalUrl ''emote'' \<and> includes' builtIn ''emote-idle'')
                builtInAssets of
           Some builtIn \<Rightarrow> Some (resolveURL env (''asset://'' @ builtIn))
         | None \<Rightarrow> Some (resolveURL env ''asset://crash-block.glb'')))"

text \<open>Fetching and parsing one URL the way \<^verbatim>\<open>loadModel\<close> does it; \<^verbatim>\<open>loadModel\<close> passes
  \<^verbatim>\<open>reject\<close> as the error callback of the parser.\<close>

definition fetch_and_parse :: "world_env \<Rightarrow> string \<Rightarrow> string + asset" where
  "fetch_and_parse env url =
     (case fetchArrayBuffer env url of
        Inl msg \<Rightarrow> Inl msg
      | Inr buf \<Rightarrow>
          (case THREE_GLTFLoader_parse env buf of
             Parsed \<Rightarrow> Inr (Model buf)
           | ParseThrows msg \<Rightarrow> Inl msg
           | ParseError msg \<Rightarrow> Inl msg))"

definition loadModel :: "world_env \<Rightarrow> string \<Rightarrow> string + asset" where
  "loadModel env url =
     (let resolvedUrl = resolveURL env url in
      case fetch_and_parse env resolvedUrl of
        Inr gltf \<Rightarrow> Inr gltf
      | Inl msg \<Rightarrow>
          (if (includes' resolvedUrl ''.glb'' \<and> includes' msg ''404'') \<or> includes' msg ''403'' then
             (case tryGetBuiltInFallback env url resolvedUrl of
                None \<Rightarrow> Inl msg
              | Some fallbackUrl \<Rightarrow>
                  (if fallbackUrl \<noteq> [] \<and> fallbackUrl \<noteq> resolvedUrl then
                     (case fetch_and_parse env fallbackUrl of
                        Inr gltf \<Rightarrow> Inr gltf
                      | Inl fallbackMsg \<Rightarrow> Inl msg)
                   else Inl msg))
           else Inl msg))"

subsection \<open>Loader state\<close>

text \<open>
  Both loaders keep \<^verbatim>\<open>promises\<close>, \<^verbatim>\<open>results\<close>, \<^verbatim>\<open>preloadItems\<close> and \<^verbatim>\<open>preloader\<close>; the
  client also keeps \<^verbatim>\<open>files\<close>. A promise is a number; \<open>heap\<close> gives the state of each
  promise that a load has created. A pending promise carries the work it waits for.
  \<open>started\<close> lists, in order, the cache key and URL of every fetch-and-parse operation
  a load has begun. \<open>batches\<close> are the pending \<^verbatim>\<open>Promise.allSettled(...).then(...)\<close> of
  \<^verbatim>\<open>execPreload\<close>, each under the number of the promise that \<^verbatim>\<open>preloader\<close> was set to.
  \<open>calls\<close> are the invocations of the client's asynchronous \<^verbatim>\<open>load\<close>: suspended at
  \<^verbatim>\<open>await this.preloader\<close>, or returned with an entry of the cache. \<open>ready\<close> counts the
  \<^verbatim>\<open>'ready'\<close> events emitted. The task \<open>Stuck\<close> is that of a promise which nothing
  will settle any more: its parser has failed without a callback that could reject it.
\<close>

datatype rejection = RNull | RError string

datatype task =
    ServerFetch string string string
  | ClientLoad string string string "buffer option"
  | ClientInsert string string buffer
  | Stuck

datatype pstate = Pending task | Fulfilled "asset option" | Rejected rejection

datatype cell = Undefined | Promise nat

datatype call_status = Awaiting nat | Returned cell

record call =
  call_type :: string
  call_url :: string
  call_state :: call_status

datatype awaited = Value cell | Call nat

record loader =
  files :: "string \<Rightarrow> buffer option"
  promises :: "string \<Rightarrow> cell option"
  results :: "string \<Rightarrow> asset option"
  preloadItems :: "(string \<times> string) list"
  preloader :: "nat option"
  heap :: "pstate list"
  started :: "(string \<times> string) list"
  batches :: "(nat \<times> awaited list) list"
  next_batch :: nat
  calls :: "call list"
  ready :: nat

definition loader_new :: loader where
  "loader_new =
     \<lparr>files = Map.empty, promises = Map.empty, results = Map.empty, preloadItems = [],
      preloader = None, heap = [], started = [], batches = [], next_batch = 0, calls = [],
      ready = 0\<rparr>"

definition has :: "loader \<Rightarrow> string \<Rightarrow> string \<Rightarrow> bool" where
  "has s type url = (promises s (type @ ''/'' @ url) \<noteq> None)"

definition get :: "loader \<Rightarrow> string \<Rightarrow> string \<Rightarrow> asset option" where
  "get s type url = results s (type @ ''/'' @ url)"

definition preload :: "loader \<Rightarrow> string \<Rightarrow> string \<Rightarrow> loader" where
  "preload s type url = s\<lparr>preloadItems := preloadItems s @ [(type, url)]\<rparr>"

definition is_settled :: "loader \<Rightarrow> nat \<Rightarrow> bool" where
  "is_settled s p =
     (p < length (heap s) \<and> (case heap s ! p of Pending t \<Rightarrow> False | _ \<Rightarrow> True))"

text \<open>What \<^verbatim>\<open>Promise.allSettled\<close> waits for: a value that is no promise counts as settled;
  the promise of a \<^verbatim>\<open>load\<close> call settles with the promise it returns.\<close>

definition cell_settled :: "loader \<Rightarrow> cell \<Rightarrow> bool" where
  "cell_settled s c = (case c of Undefined \<Rightarrow> True | Promise p \<Rightarrow> is_settled s p)"

definition awaited_settled :: "loader \<Rightarrow> awaited \<Rightarrow> bool" where
  "awaited_settled s a =
     (case a of
        Value c \<Rightarrow> cell_settled s c
      | Call i \<Rightarrow>
          (i < length (calls s) \<and>
           (case call_state (calls s ! i) of
              Awaiting q \<Rightarrow> False
            | Returned c \<Rightarrow> cell_settled s c)))"

subsection \<open>\<^verbatim>\<open>ServerLoader\<close>\<close>

text \<open>
  \<^verbatim>\<open>load(type, url)\<close>. The executors of the promises for \<^verbatim>\<open>'avatar'\<close> and \<^verbatim>\<open>'audio'\<close> finish
  without waiting: the avatar promise is created fulfilled and its result stored, the
  audio promise is created rejected with \<^verbatim>\<open>null\<close>. The executors for \<^verbatim>\<open>'model'\<close>,
  \<^verbatim>\<open>'emote'\<close> and \<^verbatim>\<open>'script'\<close> start their fetch and wait. For any other type no promise
  is made and \<^verbatim>\<open>undefined\<close> is stored.
\<close>

definition ServerLoader_load :: "world_env \<Rightarrow> loader \<Rightarrow> string \<Rightarrow> string \<Rightarrow> cell \<times> loader" where
  "ServerLoader_load env s type url =
     (let key = type @ ''/'' @ url in
      case promises s key of
        Some c \<Rightarrow> (c, s)
      | None \<Rightarrow>
          (let url' = resolveURL env url;
               p = length (heap s)
           in
           if type = ''model'' \<or> type = ''emote'' \<or> type = ''script'' then
             (Promise p,
              s\<lparr>heap := heap s @ [Pending (ServerFetch type key url')],
                started := started s @ [(key, url')],
                promises := (promises s)(key \<mapsto> Promise p)\<rparr>)
           else if type = ''avatar'' then
             (Promise p,
              s\<lparr>heap := heap s @ [Fulfilled (Some AvatarStub)],
                results := (results s)(key \<mapsto> AvatarStub),
                promises := (promises s)(key \<mapsto> Promise p)\<rparr>)
           else if type = ''audio'' then
             (Promise p,
              s\<lparr>heap := heap s @ [Rejected RNull],
                promises := (promises s)(key \<mapsto> Promise p)\<rparr>)
           else
             (Undefined, s\<lparr>promises := (promises s)(key \<mapsto> Undefined)\<rparr>)))"

text \<open>The fetch that a server promise waits for completes.\<close>

definition server_outcome :: "world_env \<Rightarrow> string \<Rightarrow> string \<Rightarrow> pstate" where
  "server_outcome env type url' =
     (if type = ''script'' then
        (case fetchText env url' of
           Inl msg \<Rightarrow> Rejected (RError msg)
         | Inr code \<Rightarrow>
             (case scripts_evaluate_throws env code of
                Some msg \<Rightarrow> Rejected (RError msg)
              | None \<Rightarrow> Fulfilled (Some (Script code))))
      else
        (case fetchArrayBuffer env url' of
           Inl msg \<Rightarrow> Rejected (RError msg)
         | Inr buf \<Rightarrow>
             (case gltfLoader_parse env buf of
                Parsed \<Rightarrow> Fulfilled (Some (if type = ''model'' then Model buf else Emote buf url'))
              | ParseThrows msg \<Rightarrow> Rejected (RError msg)
              | ParseError msg \<Rightarrow> Pending Stuck)))"

definition server_settle :: "world_env \<Rightarrow> loader \<Rightarrow> nat \<Rightarrow> loader" where
  "server_settle env s p =
     (if p < length (heap s) then
        (case heap s ! p of
           Pending (ServerFetch type key url') \<Rightarrow>
             (case server_outcome env type url' of
                Fulfilled (Some a) \<Rightarrow>
                  s\<lparr>heap := (heap s)[p := Fulfilled (Some a)], results := (results s)(key \<mapsto> a)\<rparr>
              | st \<Rightarrow> s\<lparr>heap := (heap s)[p := st]\<rparr>)
         | _ \<Rightarrow> s)
      else s)"

text \<open>\<^verbatim>\<open>this.preloadItems.map(item => this.load(item.type, item.url))\<close>\<close>

fun server_load_all :: "world_env \<Rightarrow> loader \<Rightarrow> (string \<times> string) list \<Rightarrow> cell list \<times> loader" where
  "server_load_all env s [] = ([], s)"
| "server_load_all env s (item # items) =
     (let r = ServerLoader_load env s (fst item) (snd item);
          rs = server_load_all env (snd r) items
      in (fst r # fst rs, snd rs))"

definition ServerLoader_execPreload :: "world_env \<Rightarrow> loader \<Rightarrow> loader" where
  "ServerLoader_execPreload env s =
     (let r = server_load_all env s (preloadItems s);
          s' = snd r;
          q = next_batch s'
      in s'\<lparr>preloader := Some q, batches := batches s' @ [(q, map Value (fst r))],
            next_batch := Suc q\<rparr>)"

text \<open>The callback of a batch runs once everything in the batch has settled.\<close>

definition batch_settled :: "loader \<Rightarrow> nat \<Rightarrow> bool" where
  "batch_settled s q =
     (case map_of (batches s) q of
        None \<Rightarrow> False
      | Some batch \<Rightarrow> list_all (awaited_settled s) batch)"

definition server_barrier :: "loader \<Rightarrow> nat \<Rightarrow> loader" where
  "server_barrier s q =
     (if batch_settled s q
      then s\<lparr>preloader := None, batches := filter (\<lambda>b. fst b \<noteq> q) (batches s)\<rparr>
      else s)"

text \<open>\<^verbatim>\<open>destroy()\<close> empties both maps and the list of registered items. The promises that
  are under way stay under way.\<close>

definition ServerLoader_destroy :: "loader \<Rightarrow> loader" where
  "ServerLoader_destroy s = s\<lparr>promises := Map.empty, results := Map.empty, preloadItems := []\<rparr>"

subsection \<open>\<^verbatim>\<open>ClientLoader\<close>\<close>

text \<open>The part of \<^verbatim>\<open>load\<close> after \<^verbatim>\<open>await this.preloader\<close>: the promise that the call
  returns, from the cache or newly made by \<^verbatim>\<open>this.loadFile(url).then(...)\<close>.\<close>

definition client_load_now :: "world_env \<Rightarrow> loader \<Rightarrow> string \<Rightarrow> string \<Rightarrow> cell \<times> loader" where
  "client_load_now env s type url =
     (let key = type @ ''/'' @ url in
      case promises s key of
        Some c \<Rightarrow> (c, s)
      | None \<Rightarrow>
          (let url' = resolveURL env url;
               p = length (heap s)
           in (Promise p,
               s\<lparr>heap := heap s @ [Pending (ClientLoad type key url' (files s url'))],
                 started := started s @ [(key, url')],
                 promises := (promises s)(key \<mapsto> Promise p)\<rparr>)))"


definition client_types :: "string list" where
  "client_types =
     [''hdr'', ''image'', ''texture'', ''model'', ''emote'', ''avatar'', ''script'', ''audio'']"


text \<open>The work of a client promise completes. For a promise of \<^verbatim>\<open>load\<close> the file is
  there (from the cache, or fetched and then cached) and is parsed according to its type;
  for a promise of \<^verbatim>\<open>insert\<close> the loader of the type has dealt with the given file.\<close>

definition client_settle :: "world_env \<Rightarrow> loader \<Rightarrow> nat \<Rightarrow> loader" where
  "client_settle env s p =
     (if p < length (heap s) then
        (case heap s ! p of
           Pending (ClientLoad type key url' cached) \<Rightarrow>
             (case (case cached of Some f \<Rightarrow> Inr f | None \<Rightarrow> client_fetch env url') of
                Inl msg \<Rightarrow> s\<lparr>heap := (heap s)[p := Rejected (RError msg)]\<rparr>
              | Inr f \<Rightarrow>
                  (let s1 = (if cached = None then s\<lparr>files := (files s)(url' \<mapsto> f)\<rparr> else s) in
                   if type \<in> set client_types then
                     (case client_parse env type f of
                        CParsed a \<Rightarrow>
                          s1\<lparr>heap := (heap s1)[p := Fulfilled (Some a)],
                             results := (results s1)(key \<mapsto> a)\<rparr>
                      | CThrows msg \<Rightarrow> s1\<lparr>heap := (heap s1)[p := Rejected (RError msg)]\<rparr>
                      | CSilent \<Rightarrow> s1\<lparr>heap := (heap s1)[p := Pending Stuck]\<rparr>)
                   else s1\<lparr>heap := (heap s1)[p := Fulfilled None]\<rparr>))
         | Pending (ClientInsert type key file) \<Rightarrow>
             (case client_insert_parse env type file of
                CParsed a \<Rightarrow>
                  s\<lparr>heap := (heap s)[p := Fulfilled (Some a)], results := (results s)(key \<mapsto> a)\<rparr>
              | CThrows msg \<Rightarrow> s\<lparr>heap := (heap s)[p := Rejected (RError msg)]\<rparr>
              | CSilent \<Rightarrow> s\<lparr>heap := (heap s)[p := Pending Stuck]\<rparr>)
         | _ \<Rightarrow> s)
      else s)"



text \<open>A call suspended at \<^verbatim>\<open>await this.preloader\<close> goes on.\<close>

definition resume_call :: "world_env \<Rightarrow> loader \<Rightarrow> nat \<Rightarrow> loader" where
  "resume_call env s i =
     (let c = calls s ! i;
          r = client_load_now env s (call_type c) (call_url c)
      in (snd r)\<lparr>calls := (calls s)[i := c\<lparr>call_state := Returned (fst r)\<rparr>]\<rparr>)"

text \<open>The calls suspended on preloader \<open>q\<close> go on, in the order in which they were made.\<close>

fun resume_calls :: "world_env \<Rightarrow> nat \<Rightarrow> nat list \<Rightarrow> loader \<Rightarrow> loader" where
  "resume_calls env q [] s = s"
| "resume_calls env q (i # is) s =
     (if i < length (calls s) \<and> call_state (calls s ! i) = Awaiting q
      then resume_calls env q is (resume_call env s i)
      else resume_calls env q is s)"


subsection \<open>Runs\<close>

text \<open>What happens to a loader: calls of its methods, completions of the work of its
  promises, callbacks of its preload batches. \<^verbatim>\<open>ServerLoader\<close> defines no \<^verbatim>\<open>insert\<close>
  and \<^verbatim>\<open>ClientLoader\<close> defines no \<^verbatim>\<open>destroy\<close>; such a call does not touch the fields
  of the loader.\<close>

datatype event =
    Load string string
  | Preload string string
  | ExecPreload
  | Settle nat
  | Barrier nat
  | Insert string string buffer
  | Destroy

fun server_step :: "world_env \<Rightarrow> loader \<Rightarrow> event \<Rightarrow> loader" where
  "server_step env s (Load type url) = snd (ServerLoader_load env s type url)"
| "server_step env s (Preload type url) = preload s type url"
| "server_step env s ExecPreload = ServerLoader_execPreload env s"
| "server_step env s (Settle p) = server_settle env s p"
| "server_step env s (Barrier q) = server_barrier s q"
| "server_step env s (Insert type url file) = s"
| "server_step env s Destroy = ServerLoader_destroy s"


definition server_run :: "world_env \<Rightarrow> loader \<Rightarrow> event list \<Rightarrow> loader" where
  "server_run env s es = foldl (server_step env) s es"


subsection \<open>A concrete world\<close>

text \<open>
  \<^verbatim>\<open>asset://\<close> references resolve to a CDN; the CDN has the built-in
  \<^verbatim>\<open>crash-block.glb\<close> and answers every other request with 404; nothing is on the local
  disk; the parsers accept what they are given.
\<close>

definition example_hash_url :: string where
  "example_hash_url = ''asset://'' @ ''aaaaaaaaaaaaaaaaaaaaaaaaaaaaaaaaaaaaaaaaaaaaaaaaaaaaaaaaaaaaaaaa'' @ ''.glb''"

definition example_world :: world_env where
  "example_world =
     \<lparr>resolveURL =
        (\<lambda>u. if startsWith u ''asset://'' then ''https://cdn.example/assets/'' @ drop 8 u else u),
      fetch =
        (\<lambda>u. if u = ''https://cdn.example/assets/crash-block.glb''
             then Response \<lparr>ok = True, status = 200, statusText = ''OK'',
                    content_type = Some ''model/gltf-binary'', arrayBuffer = [7, 7],
                    body_text = []\<rparr>
             else Response \<lparr>ok = False, status = 404, statusText = ''Not Found'',
                    content_type = Some ''application/xml'', arrayBuffer = [], body_text = []\<rparr>),
      readFile = (\<lambda>p. Inl ''ENOENT: no such file or directory''),
      readFile_utf8 = (\<lambda>p. Inl ''ENOENT: no such file or directory''),
      gltfLoader_parse = (\<lambda>b. Parsed),
      THREE_GLTFLoader_parse = (\<lambda>b. Parsed),
      scripts_evaluate_throws = (\<lambda>c. None),
      client_fetch = (\<lambda>u. if u = ''https://cdn.example/assets/crash-block.glb''
                          then Inr [7, 7] else Inl ''Failed to fetch''),
      client_parse = (\<lambda>t f. CParsed (Other t f)),
      client_insert_parse = (\<lambda>t f. CParsed (Other t f))\<rparr>"


subsection \<open>Invariants of the promise cache\<close>

text \<open>Every operation that was started has its key in the cache, and no key has had two.\<close>

definition cache_inv :: "loader \<Rightarrow> bool" where
  "cache_inv s \<longleftrightarrow>
     distinct (map fst (started s)) \<and> (\<forall>k\<in>set (map fst (started s)). promises s k \<noteq> None)"

text \<open>A promise that will not change any more: it has settled, or nothing can settle it.\<close>

definition final :: "loader \<Rightarrow> nat \<Rightarrow> bool" where
  "final s p \<longleftrightarrow> p < length (heap s) \<and> (is_settled s p \<or> heap s ! p = Pending Stuck)"

text \<open>From \<open>s\<close> to \<open>s'\<close> the cache has kept its entries, but for the keys in \<open>K\<close>, and the
  promises that were final their state.\<close>

definition kept :: "string set \<Rightarrow> loader \<Rightarrow> loader \<Rightarrow> bool" where
  "kept K s s' \<longleftrightarrow>
     (\<forall>k c. k \<notin> K \<longrightarrow> promises s k = Some c \<longrightarrow> promises s' k = Some c) \<and>
     length (heap s) \<le> length (heap s') \<and>
     (\<forall>p. final s p \<longrightarrow> heap s' ! p = heap s ! p)"

definition cache_le :: "loader \<Rightarrow> loader \<Rightarrow> bool" where
  "cache_le s s' \<longleftrightarrow> kept {} s s'"



text \<open>Every call that has returned holds the cache entry of its key, but for the keys in
  \<open>K\<close>.\<close>

definition calls_inv :: "string set \<Rightarrow> loader \<Rightarrow> bool" where
  "calls_inv K s \<longleftrightarrow>
     (\<forall>i<length (calls s). \<forall>c.
        call_type (calls s ! i) @ ''/'' @ call_url (calls s ! i) \<notin> K \<longrightarrow>
        call_state (calls s ! i) = Returned c \<longrightarrow>
        promises s (call_type (calls s ! i) @ ''/'' @ call_url (calls s ! i)) = Some c)"


section \<open>Properties of the key-value store\<close>

subsection \<open>The JSON round trip\<close>

lemmas serialize_property = serialize.simps(1)

lemma toJSON_of_data: "json_data v \<Longrightarrow> toJSON_of v = None"
proof (cases v)
  case (JObj kvs)
  assume d: "json_data v"
  show ?thesis
  proof (cases "map_of kvs ''toJSON''")
    case None
    with JObj show ?thesis by simp
  next
    case (Some x)
    then have "(''toJSON'', x) \<in> set kvs" by (rule map_of_SomeD)
    with d JObj have "json_data x" by (auto simp: list_all_iff)
    then show ?thesis using Some JObj by (cases x) simp_all
  qed
qed simp_all

lemma serialize_data: "json_data v \<Longrightarrow> serialize b v = Json v"
proof (induction b v rule: serialize.induct)
  case (1 v)
  then show ?case by (simp add: toJSON_of_data serialize_property)
next
  case (11 xs)
  then have "\<forall>x\<in>set xs. serialize True x = Json x" by (auto simp: list_all_iff)
  then have "map (serialize True) xs = map Json xs" by (simp add: map_eq_conv) 
  then show ?case by (auto simp: Let_def o_def map_idI)
next
  case (12 kvs)
  then have "\<forall>kv\<in>set kvs. serialize True (snd kv) = Json (snd kv)" by (auto simp: list_all_iff)
  then have m: "map (\<lambda>kv. (fst kv, serialize True (snd kv))) kvs = map (\<lambda>kv. (fst kv, Json (snd kv))) kvs"
    by (simp add: map_eq_conv)
  have c: "concat (map (\<lambda>kr. case snd kr of Json w \<Rightarrow> [(fst kr, w)] | _ \<Rightarrow> [])
             (map (\<lambda>kv. (fst kv, Json (snd kv))) kvs)) = kvs"
    by (induction kvs) simp_all
  have "serialize False (JObj kvs) =
      (let rs = map (\<lambda>kv. (fst kv, Json (snd kv))) kvs in
       if Throws \<in> snd ` set rs then Throws
       else Json (JObj (concat (map (\<lambda>kr. case snd kr of Json w \<Rightarrow> [(fst kr, w)] | _ \<Rightarrow> []) rs))))"
    by (simp only: serialize.simps(12) m)
  then show ?case using c by (auto simp: Let_def)
qed simp_all

lemma serialize_gives_data: "serialize b v = Json w \<Longrightarrow> json_data w"
proof (induction b v arbitrary: w rule: serialize.induct)
  case (1 v)
  then show ?case by (auto simp: serialize_property split: option.splits)
next
  case (11 xs)
  from 11(2) have nt: "Throws \<notin> set (map (serialize True) xs)"
    and w: "w = JArr (map (\<lambda>r. case r of Json w \<Rightarrow> w | _ \<Rightarrow> JNull) (map (serialize True) xs))"
    by (auto simp: Let_def split: if_splits)
  have "\<forall>x\<in>set xs. json_data (case serialize True x of Json w \<Rightarrow> w | _ \<Rightarrow> JNull)"
  proof
    fix x assume x: "x \<in> set xs"
    show "json_data (case serialize True x of Json w \<Rightarrow> w | _ \<Rightarrow> JNull)"
      using 11(1)[OF x] by (cases "serialize True x") simp_all
  qed
  with w show ?case by (simp add: list_all_iff)
next
  case (12 kvs)
  from 12(2) have
    w: "w = JObj (concat (map (\<lambda>kr. case snd kr of Json w \<Rightarrow> [(fst kr, w)] | _ \<Rightarrow> [])
             (map (\<lambda>kv. (fst kv, serialize True (snd kv))) kvs)))"
    by (auto simp: Let_def split: if_splits)
  have "\<forall>kv\<in>set kvs. \<forall>p\<in>set (case serialize True (snd kv) of Json w \<Rightarrow> [(fst kv, w)] | _ \<Rightarrow> []).
          json_data (snd p)"
  proof
    fix kv assume kv: "kv \<in> set kvs"
    show "\<forall>p\<in>set (case serialize True (snd kv) of Json w \<Rightarrow> [(fst kv, w)] | _ \<Rightarrow> []).
          json_data (snd p)"
      using 12(1)[OF kv] by (cases "serialize True (snd kv)") simp_all
  qed
  with w show ?case by (auto simp: list_all_iff o_def)
qed auto

lemma JSON_roundtrip_fixpoint: "JSON_roundtrip v = Some w \<Longrightarrow> JSON_roundtrip w = Some w"
proof -
  assume "JSON_roundtrip v = Some w"
  then have "serialize True v = Json w"
    by (auto simp: JSON_roundtrip_def split: json_result.splits)
  then have "json_data w" by (rule serialize_gives_data)
  then show ?thesis by (simp add: JSON_roundtrip_def serialize_data)
qed

lemma JSON_roundtrip_toJSON:
  "JSON_roundtrip (JObj [(''at'', JNum 5), (''toJSON'', JFunction (Some (JStr ''five'')))])
     = Some (JStr ''five'') \<and>
   JSON_roundtrip (JArr [JObj [(''toJSON'', JFunction None)]]) = None \<and>
   JSON_roundtrip (JFunction (Some JNull)) = None"
  by (simp add: JSON_roundtrip_def serialize_property)

subsection \<open>Reads before and after the initial load\<close>

lemma constructor_inherited:
  "''constructor'' \<in> set Object_prototype_methods"
  "''constructor'' \<in> set Array_prototype_methods"
  by (simp_all add: Object_prototype_methods_def Array_prototype_methods_def)

text \<open>
  Claim C6, as stated, is refuted: a read before the initial load has completed and a read
  of an absent key after it return the same value, \<^verbatim>\<open>undefined\<close>. Here the manager as
  constructed is compared with the same manager after an empty document has been loaded.
\<close>

theorem getStorageValue_sentinel_counterexample:
  "getStorageValue StorageManager_new ''score'' =
   getStorageValue (initStorageData StorageManager_new (Inr Map.empty)) ''score''"
  by (simp add: getStorageValue_def StorageManager_new_def initStorageData_def property_get_def
      Object_prototype_get_def Object_prototype_methods_def)

lemma Object_prototype_get_undefined:
  assumes "key \<noteq> ''__proto__''" and "key \<notin> set Object_prototype_methods"
  shows "Object_prototype_get p key = Plain JUndefined"
proof -
  have "key \<noteq> ''constructor''" using assms(2) constructor_inherited(1) by blast
  with assms show ?thesis by (simp add: Object_prototype_get_def)
qed

lemma array_get_undefined:
  assumes "key \<noteq> ''__proto__''" and "key \<notin> set Object_prototype_methods"
    and "key \<notin> set Array_prototype_methods" and "key \<noteq> ''length''"
    and "case array_index key of Some i \<Rightarrow> \<not> i < length xs | None \<Rightarrow> True"
  shows "array_get p xs key = Plain JUndefined"
proof -
  have "key \<noteq> ''constructor''" using assms(2) constructor_inherited(1) by blast
  with assms show ?thesis
    by (simp add: array_get_def Object_prototype_get_undefined split: option.splits)
qed

lemma property_get_undefined:
  assumes "\<not> has_property doc key"
  shows "property_get doc key = Plain JUndefined"
proof -
  from assms have o: "own doc key = None" by (simp add: has_property_def)
  show ?thesis
  proof (cases "proto doc")
    case Object_prototype
    with assms have "key \<noteq> ''__proto__''" "key \<notin> set Object_prototype_methods"
      by (simp_all add: has_property_def)
    with o Object_prototype show ?thesis
      by (simp add: property_get_def Object_prototype_get_undefined)
  next
    case Null_prototype
    with o show ?thesis by (simp add: property_get_def)
  next
    case (Parsed_object kvs)
    with assms have "key \<noteq> ''__proto__''" "key \<notin> set Object_prototype_methods"
      "map_of kvs key = None"
      by (simp_all add: has_property_def)
    with o Parsed_object show ?thesis
      by (simp add: property_get_def Object_prototype_get_undefined)
  next
    case (Parsed_array xs)
    with assms have "key \<noteq> ''__proto__''" "key \<notin> set Object_prototype_methods"
      "key \<notin> set Array_prototype_methods" "key \<noteq> ''length''"
      "case array_index key of Some i \<Rightarrow> \<not> i < length xs | None \<Rightarrow> True"
      by (simp_all add: has_property_def split: option.splits)
    with o Parsed_array show ?thesis
      by (simp add: property_get_def array_get_undefined)
  qed
qed

lemma Object_prototype_get_inherited:
  assumes "key \<in> set Object_prototype_methods"
  shows "Object_prototype_get Object_prototype key \<noteq> Plain JUndefined"
  using assms by (simp add: Object_prototype_get_def)

text \<open>
  Claim C6, amended: \<^verbatim>\<open>get(key)\<close> returns \<^verbatim>\<open>undefined\<close> when the storage document has not
  been loaded yet, and it returns \<^verbatim>\<open>undefined\<close> as well when the document has been loaded
  and has no property of that name, neither its own nor one inherited through its
  prototype chain; the return value does not tell the two apart. A name that the loaded
  document does not hold but inherits from \<^verbatim>\<open>Object.prototype\<close>, such as
  \<^verbatim>\<open>constructor\<close>, reads as the inherited member, which is not \<^verbatim>\<open>undefined\<close>.
\<close>

theorem getStorageValue_undefined:
  "(\<not> storageLoaded s \<longrightarrow> getStorageValue s key = Plain JUndefined) \<and>
   (storageLoaded s \<and> \<not> has_property (storageData s) key \<longrightarrow>
      getStorageValue s key = Plain JUndefined) \<and>
   (storageLoaded s \<and> own (storageData s) key = None \<and>
    proto (storageData s) = Object_prototype \<and>
    key \<in> set (''__proto__'' # Object_prototype_methods) \<longrightarrow>
      getStorageValue s key \<noteq> Plain JUndefined)"
proof (intro conjI impI)
  assume "\<not> storageLoaded s"
  then show "getStorageValue s key = Plain JUndefined"
    by (simp add: getStorageValue_def)
next
  assume "storageLoaded s \<and> \<not> has_property (storageData s) key"
  then show "getStorageValue s key = Plain JUndefined"
    by (simp add: getStorageValue_def property_get_undefined)
next
  assume h: "storageLoaded s \<and> own (storageData s) key = None \<and>
    proto (storageData s) = Object_prototype \<and>
    key \<in> set (''__proto__'' # Object_prototype_methods)"
  show "getStorageValue s key \<noteq> Plain JUndefined"
  proof (cases "key = ''__proto__''")
    case True
    with h show ?thesis
      by (simp add: getStorageValue_def property_get_def Object_prototype_get_def)
  next
    case False
    with h have "key \<in> set Object_prototype_methods" by simp
    from Object_prototype_get_inherited[OF this] h show ?thesis
      by (simp add: getStorageValue_def property_get_def)
  qed
qed

theorem getStorageValue_undefined_witness:
  "getStorageValue StorageManager_new ''score'' = Plain JUndefined \<and>
   getStorageValue (initStorageData StorageManager_new (Inr Map.empty)) ''score''
     = Plain JUndefined \<and>
   getStorageValue (initStorageData StorageManager_new (Inr Map.empty)) ''constructor''
     \<noteq> Plain JUndefined"
proof -
  let ?s = "initStorageData StorageManager_new (Inr Map.empty)"
  have a: "\<not> storageLoaded StorageManager_new"
    by (simp add: StorageManager_new_def)
  have b: "storageLoaded ?s \<and> \<not> has_property (storageData ?s) ''score''"
    by (simp add: StorageManager_new_def initStorageData_def has_property_def
        Object_prototype_methods_def)
  have c: "storageLoaded ?s \<and> own (storageData ?s) ''constructor'' = None \<and>
    proto (storageData ?s) = Object_prototype \<and>
    ''constructor'' \<in> set (''__proto__'' # Object_prototype_methods)"
    by (simp add: StorageManager_new_def initStorageData_def Object_prototype_methods_def)
  show ?thesis
    using a b c getStorageValue_undefined [of StorageManager_new "''score''"]
      getStorageValue_undefined [of ?s "''score''"]
      getStorageValue_undefined [of ?s "''constructor''"]
    by blast
qed

subsection \<open>Writes pass through JSON\<close>

lemma own_property_set:
  "key \<noteq> ''__proto__'' \<or> \<not> reaches_accessor doc \<Longrightarrow>
     own (property_set doc key v) = (own doc)(key \<mapsto> v)"
  "key \<noteq> ''__proto__'' \<or> \<not> reaches_accessor doc \<Longrightarrow>
     proto (property_set doc key v) = proto doc"
  by (auto simp: property_set_def)

lemma property_set_accessor:
  "reaches_accessor doc \<Longrightarrow>
     property_set doc ''__proto__'' v = set_prototype doc v \<and>
     own (property_set doc ''__proto__'' v) = own doc"
  by (cases v) (simp_all add: property_set_def)

lemma own_set_prototype: "own (set_prototype doc v) = own doc"
  by (cases v) simp_all

lemma own_property_set_other:
  "k \<noteq> key \<Longrightarrow> own (property_set doc key v) k = own doc k"
  by (simp add: property_set_def own_set_prototype)

lemma property_get_set:
  "key \<noteq> ''__proto__'' \<or> \<not> reaches_accessor doc \<Longrightarrow>
     property_get (property_set doc key v) key = Plain v"
  by (auto simp: property_get_def property_set_def)

lemma storageData_set:
  "storageLoaded s \<Longrightarrow> JSON_roundtrip v = Some w \<Longrightarrow>
     storageData (setStorageValue s t key v) = property_set (storageData s) key w \<and>
     storageLoaded (setStorageValue s t key v) \<and>
     lastCallTime (throttle (setStorageValue s t key v)) = Some t"
  by (simp add: setStorageValue_def saveStorageData_def debounced_def leadingEdge_def
      invokeFunc_def persistStorageData_def Let_def)

text \<open>
  Claim C8: \<^verbatim>\<open>set(key, value)\<close> sends the value through
  \<^verbatim>\<open>JSON.parse(JSON.stringify(value))\<close> first. When that throws, the manager is left
  exactly as it was: the document keeps what it held, the throttle has not been called
  and nothing is handed to the backend. When it succeeds on a loaded store, what is
  assigned with \<^verbatim>\<open>this.storageData[key] = value\<close> is the round-tripped value, a value that
  the round trip maps to itself, and the throttled save has been called at that time.
  The assignment makes the value an own property of the document, which a read of the
  key then returns, and leaves the prototype alone; only an assignment to \<^verbatim>\<open>__proto__\<close>
  that reaches the accessor of \<^verbatim>\<open>Object.prototype\<close> goes to the setter of the prototype
  and makes no property. The other own properties stay as they were in every case.
\<close>

theorem setStorageValue_json_gate:
  "(JSON_roundtrip v = None \<longrightarrow> setStorageValue s t key v = s) \<and>
   (storageLoaded s \<and> JSON_roundtrip v = Some w \<longrightarrow>
      storageData (setStorageValue s t key v) = property_set (storageData s) key w \<and>
      JSON_roundtrip w = Some w \<and>
      lastCallTime (throttle (setStorageValue s t key v)) = Some t \<and>
      (\<forall>k. k \<noteq> key \<longrightarrow>
         own (storageData (setStorageValue s t key v)) k = own (storageData s) k) \<and>
      (key \<noteq> ''__proto__'' \<or> \<not> reaches_accessor (storageData s) \<longrightarrow>
         own (storageData (setStorageValue s t key v)) key = Some w \<and>
         proto (storageData (setStorageValue s t key v)) = proto (storageData s) \<and>
         getStorageValue (setStorageValue s t key v) key = Plain w) \<and>
      (key = ''__proto__'' \<and> reaches_accessor (storageData s) \<longrightarrow>
         own (storageData (setStorageValue s t key v)) = own (storageData s) \<and>
         storageData (setStorageValue s t key v) = set_prototype (storageData s) w))"
proof (intro conjI impI allI)
  assume "JSON_roundtrip v = None"
  then show "setStorageValue s t key v = s"
    by (simp add: setStorageValue_def)
next
  assume h: "storageLoaded s \<and> JSON_roundtrip v = Some w"
  then show "storageData (setStorageValue s t key v) = property_set (storageData s) key w"
    by (simp add: storageData_set)
next
  assume h: "storageLoaded s \<and> JSON_roundtrip v = Some w"
  then show "JSON_roundtrip w = Some w"
    by (blast intro: JSON_roundtrip_fixpoint)
next
  assume h: "storageLoaded s \<and> JSON_roundtrip v = Some w"
  then show "lastCallTime (throttle (setStorageValue s t key v)) = Some t"
    by (simp add: storageData_set)
next
  fix k
  assume h: "storageLoaded s \<and> JSON_roundtrip v = Some w" and k: "k \<noteq> key"
  then show "own (storageData (setStorageValue s t key v)) k = own (storageData s) k"
    by (simp add: storageData_set own_property_set_other)
next
  assume h: "storageLoaded s \<and> JSON_roundtrip v = Some w"
    and k: "key \<noteq> ''__proto__'' \<or> \<not> reaches_accessor (storageData s)"
  from h have d: "storageData (setStorageValue s t key v) = property_set (storageData s) key w"
    and l: "storageLoaded (setStorageValue s t key v)"
    by (simp_all add: storageData_set)
  show "own (storageData (setStorageValue s t key v)) key = Some w"
    unfolding d using own_property_set(1)[OF k, of w] by simp
  show "proto (storageData (setStorageValue s t key v)) = proto (storageData s)"
    unfolding d using own_property_set(2)[OF k, of w] by simp
  show "getStorageValue (setStorageValue s t key v) key = Plain w"
    using l d property_get_set[OF k, of w] by (simp add: getStorageValue_def)
next
  assume h: "storageLoaded s \<and> JSON_roundtrip v = Some w"
    and k: "key = ''__proto__'' \<and> reaches_accessor (storageData s)"
  from h have d: "storageData (setStorageValue s t key v) = property_set (storageData s) key w"
    by (simp add: storageData_set)
  from k have r: "reaches_accessor (storageData s)" by simp
  show "own (storageData (setStorageValue s t key v)) = own (storageData s)"
    using d property_set_accessor[OF r, of w] k by (simp add: own_set_prototype)
  show "storageData (setStorageValue s t key v) = set_prototype (storageData s) w"
    using d property_set_accessor[OF r, of w] k by simp
qed

theorem setStorageValue_json_gate_witness:
  "setStorageValue (initStorageData StorageManager_new (Inr Map.empty)) 5 ''hp''
       (JObj [(''n'', JBigInt 7)])
     = initStorageData StorageManager_new (Inr Map.empty) \<and>
   getStorageValue (setStorageValue (initStorageData StorageManager_new (Inr Map.empty)) 5 ''hp''
       (JArr [JNum 3, JUndefined, JNaN])) ''hp''
     = Plain (JArr [JNum 3, JNull, JNull]) \<and>
   own (storageData (setStorageValue (initStorageData StorageManager_new (Inr Map.empty)) 5
       ''__proto__'' (JObj [(''hp'', JNum 3)]))) = Map.empty"
proof -
  let ?s = "initStorageData StorageManager_new (Inr Map.empty)"
  have a: "JSON_roundtrip (JObj [(''n'', JBigInt 7)]) = None"
    by (simp add: JSON_roundtrip_def serialize_property)
  have b: "storageLoaded ?s \<and>
           JSON_roundtrip (JArr [JNum 3, JUndefined, JNaN]) = Some (JArr [JNum 3, JNull, JNull])"
    by (simp add: JSON_roundtrip_def serialize_property initStorageData_def)
  have c: "storageLoaded ?s \<and>
           JSON_roundtrip (JObj [(''hp'', JNum 3)]) = Some (JObj [(''hp'', JNum 3)])"
    by (simp add: JSON_roundtrip_def serialize_property initStorageData_def)
  have d: "reaches_accessor (storageData ?s) \<and> own (storageData ?s) = Map.empty"
    by (simp add: initStorageData_def reaches_accessor_def)
  have e: "''hp'' \<noteq> ''__proto__''" by simp
  note g1 = setStorageValue_json_gate [where v = "JObj [(''n'', JBigInt 7)]" and s = ?s and t = 5
      and key = "''hp''"]
  note g2 = setStorageValue_json_gate [where v = "JArr [JNum 3, JUndefined, JNaN]" and s = ?s
      and w = "JArr [JNum 3, JNull, JNull]" and t = 5 and key = "''hp''"]
  note g3 = setStorageValue_json_gate [where v = "JObj [(''hp'', JNum 3)]" and s = ?s
      and w = "JObj [(''hp'', JNum 3)]" and t = 5 and key = "''__proto__''"]
  from g1 a have c1: "setStorageValue ?s 5 ''hp'' (JObj [(''n'', JBigInt 7)]) = ?s"
    by blast
  from g2 b e have c2: "getStorageValue (setStorageValue ?s 5 ''hp''
       (JArr [JNum 3, JUndefined, JNaN])) ''hp'' = Plain (JArr [JNum 3, JNull, JNull])"
    by blast
  from g3 c d have "own (storageData (setStorageValue ?s 5 ''__proto__'' (JObj [(''hp'', JNum 3)])))
      = own (storageData ?s)"
    by blast
  with d have c3: "own (storageData (setStorageValue ?s 5 ''__proto__'' (JObj [(''hp'', JNum 3)])))
      = Map.empty"
    by simp
  from c1 c2 c3 show ?thesis by blast
qed

subsection \<open>A burst of writes inside one throttle window\<close>










section \<open>Properties of the collection ordering\<close>

lemma insert_default:
  "id' c = ''default'' \<Longrightarrow> insert_sorted (compare_collections lc) c xs = c # xs"
  by (cases xs) (simp_all add: compare_collections_def)

lemma insert_skips_defaults:
  "id' c \<noteq> ''default'' \<Longrightarrow> \<forall>d\<in>set ds. id' d = ''default'' \<Longrightarrow>
   insert_sorted (compare_collections lc) c (ds @ rest)
     = ds @ insert_sorted (compare_collections lc) c rest"
  by (induction ds) (simp_all add: compare_collections_def)

lemma insert_non_default:
  "id' c \<noteq> ''default'' \<Longrightarrow> \<forall>r\<in>set rest. id' r \<noteq> ''default'' \<Longrightarrow>
   insert_sorted (compare_collections lc) c rest
     = insert_sorted (\<lambda>a b. lc (id' a) (id' b)) c rest"
  by (induction rest) (simp_all add: compare_collections_def)

lemma set_insert_sorted: "set (insert_sorted cmp x xs) = insert x (set xs)"
  by (induction xs) auto

lemma set_Array_sort: "set (Array_sort cmp xs) = set xs"
  by (induction xs) (simp_all add: Array_sort_def set_insert_sorted)

lemma mset_insert_sorted: "mset (insert_sorted cmp x xs) = add_mset x (mset xs)"
  by (induction xs) auto

lemma mset_Array_sort: "mset (Array_sort cmp xs) = mset xs"
  by (induction xs) (simp_all add: Array_sort_def mset_insert_sorted)

lemma sort_collections_split:
  "sort_collections lc cs =
     filter (\<lambda>c. id' c = ''default'') cs @
     Array_sort (\<lambda>a b. lc (id' a) (id' b)) (filter (\<lambda>c. id' c \<noteq> ''default'') cs)"
proof (induction cs)
  case Nil
  show ?case by (simp add: sort_collections_def Array_sort_def)
next
  case (Cons c cs)
  let ?ds = "filter (\<lambda>c. id' c = ''default'') cs"
  let ?rest = "Array_sort (\<lambda>a b. lc (id' a) (id' b)) (filter (\<lambda>c. id' c \<noteq> ''default'') cs)"
  have step: "sort_collections lc (c # cs) = insert_sorted (compare_collections lc) c (?ds @ ?rest)"
    using Cons.IH by (simp add: sort_collections_def Array_sort_def)
  show ?case
  proof (cases "id' c = ''default''")
    case True
    then show ?thesis using step by (simp add: insert_default)
  next
    case False
    have ds: "\<forall>d\<in>set ?ds. id' d = ''default''" by simp
    have rest: "\<forall>r\<in>set ?rest. id' r \<noteq> ''default''" by (simp add: set_Array_sort)
    show ?thesis
      using False step insert_skips_defaults[OF False ds, of lc ?rest]
        insert_non_default[OF False rest, of lc]
      by (simp add: Array_sort_def)
  qed
qed

lemma sorted_insert_sorted:
  assumes tot: "\<And>a b. cmp a b \<le> 0 \<or> cmp b a \<le> 0"
    and trans: "\<And>a b c. cmp a b \<le> 0 \<Longrightarrow> cmp b c \<le> 0 \<Longrightarrow> cmp a c \<le> 0"
  shows "sorted_wrt (\<lambda>a b. cmp a b \<le> 0) xs \<Longrightarrow> sorted_wrt (\<lambda>a b. cmp a b \<le> 0) (insert_sorted cmp x xs)"
proof (induction xs)
  case Nil
  show ?case by simp
next
  case (Cons y ys)
  from Cons.prems have tail: "sorted_wrt (\<lambda>a b. cmp a b \<le> 0) ys"
    and head: "\<forall>z\<in>set ys. cmp y z \<le> 0" by simp_all
  show ?case
  proof (cases "cmp x y \<le> 0")
    case True
    have "\<forall>z\<in>set ys. cmp x z \<le> 0"
    proof
      fix z assume "z \<in> set ys"
      with head have "cmp y z \<le> 0" by simp
      with True show "cmp x z \<le> 0" by (rule trans)
    qed
    with True Cons.prems show ?thesis by simp
  next
    case False
    with tot[of x y] have yx: "cmp y x \<le> 0" by simp
    have "sorted_wrt (\<lambda>a b. cmp a b \<le> 0) (insert_sorted cmp x ys)"
      using Cons.IH[OF tail] .
    with False yx head show ?thesis by (simp add: set_insert_sorted)
  qed
qed

lemma sorted_Array_sort:
  assumes tot: "\<And>a b. cmp a b \<le> 0 \<or> cmp b a \<le> 0"
    and trans: "\<And>a b c. cmp a b \<le> 0 \<Longrightarrow> cmp b c \<le> 0 \<Longrightarrow> cmp a c \<le> 0"
  shows "sorted_wrt (\<lambda>a b. cmp a b \<le> 0) (Array_sort cmp xs)"
proof (induction xs)
  case Nil
  show ?case by (simp add: Array_sort_def)
next
  case (Cons x xs)
  have "Array_sort cmp (x # xs) = insert_sorted cmp x (Array_sort cmp xs)"
    by (simp add: Array_sort_def)
  then show ?case using sorted_insert_sorted[OF tot trans Cons.IH] by simp
qed

lemma consistent_total: "consistent_comparator lc \<Longrightarrow> lc a b \<le> 0 \<or> lc b a \<le> 0"
  unfolding consistent_comparator_def by (metis not_le order_less_imp_le)

lemma consistent_trans:
  "consistent_comparator lc \<Longrightarrow> lc a b \<le> 0 \<Longrightarrow> lc b c \<le> 0 \<Longrightarrow> lc a c \<le> 0"
  unfolding consistent_comparator_def by blast

lemma codeunit_compare_sym: "(codeunit_compare a b < 0) = (codeunit_compare b a > 0)"
  by (induction a b rule: codeunit_compare.induct) auto

lemma codeunit_compare_trans:
  "codeunit_compare a b \<le> 0 \<Longrightarrow> codeunit_compare b c \<le> 0 \<Longrightarrow> codeunit_compare a c \<le> 0"
proof (induction a b arbitrary: c rule: codeunit_compare.induct)
  case 1
  then show ?case by simp
next
  case (2 y ys)
  then show ?case by (cases c) auto
next
  case (3 x xs)
  then show ?case by simp
next
  case (4 x xs y ys)
  show ?case
  proof (cases c)
    case Nil
    with 4 show ?thesis by simp
  next
    case (Cons z zs)
    consider "(of_char x :: nat) < of_char y" | "(of_char x :: nat) = of_char y" using 4(2)
      by (auto split: if_splits)
    then show ?thesis
    proof cases
      case 1
      then show ?thesis using 4(3) Cons by (auto split: if_splits)
    next
      case 2
      then have ab: "codeunit_compare xs ys \<le> 0" using 4(2) by simp
      show ?thesis using 4(3) Cons 2 4(1)[OF _ _ ab, of zs] by (auto split: if_splits)
    qed
  qed
qed

lemma codeunit_compare_consistent: "consistent_comparator codeunit_compare"
  unfolding consistent_comparator_def using codeunit_compare_sym codeunit_compare_trans by blast

text \<open>
  Claim C9: the sorted collection list consists of the entries whose id is
  \<^verbatim>\<open>"default"\<close>, followed by all other entries arranged by \<^verbatim>\<open>localeCompare\<close> of
  their ids (each id not after the ids that follow it); it is a rearrangement of the list
  that was collected. This holds for every collation \<open>lc\<close> that compares consistently,
  and for lists with at most one entry called \<^verbatim>\<open>"default"\<close> (two such entries would each
  be put before the other by the comparator); the ids, which come from distinct manifest
  paths, are of that kind.
\<close>

theorem sort_collections_default_first:
  assumes "consistent_comparator lc"
    and "length (filter (\<lambda>c. id' c = ''default'') cs) \<le> 1"
  shows "sort_collections lc cs =
           filter (\<lambda>c. id' c = ''default'') cs @
           Array_sort (\<lambda>a b. lc (id' a) (id' b)) (filter (\<lambda>c. id' c \<noteq> ''default'') cs) \<and>
         sorted_wrt (\<lambda>a b. lc (id' a) (id' b) \<le> 0)
           (Array_sort (\<lambda>a b. lc (id' a) (id' b)) (filter (\<lambda>c. id' c \<noteq> ''default'') cs)) \<and>
         mset (sort_collections lc cs) = mset cs"
proof -
  have "sorted_wrt (\<lambda>a b. lc (id' a) (id' b) \<le> 0)
           (Array_sort (\<lambda>a b. lc (id' a) (id' b)) (filter (\<lambda>c. id' c \<noteq> ''default'') cs))"
  proof (rule sorted_Array_sort)
    fix a b :: "'a collection"
    show "lc (id' a) (id' b) \<le> 0 \<or> lc (id' b) (id' a) \<le> 0"
      using consistent_total[OF assms(1)] .
  next
    fix a b c :: "'a collection"
    assume "lc (id' a) (id' b) \<le> 0" "lc (id' b) (id' c) \<le> 0"
    then show "lc (id' a) (id' c) \<le> 0"
      using consistent_trans[OF assms(1)] by blast
  qed
  then show ?thesis
    by (simp add: sort_collections_split[symmetric] sort_collections_def mset_Array_sort)
qed

text \<open>The example of the claim: \<^verbatim>\<open>["zebra", "default", "alpha"]\<close> sorts to
  \<^verbatim>\<open>["default", "alpha", "zebra"]\<close>.\<close>

theorem sort_collections_default_first_witness:
  "sort_collections codeunit_compare
     [\<lparr>id' = ''zebra'', name = ''Zebra'', blueprints = [1::nat]\<rparr>,
      \<lparr>id' = ''default'', name = ''Default'', blueprints = []\<rparr>,
      \<lparr>id' = ''alpha'', name = ''Alpha'', blueprints = [2, 3]\<rparr>]
   = [\<lparr>id' = ''default'', name = ''Default'', blueprints = []\<rparr>,
      \<lparr>id' = ''alpha'', name = ''Alpha'', blueprints = [2, 3]\<rparr>,
      \<lparr>id' = ''zebra'', name = ''Zebra'', blueprints = [1]\<rparr>]"
proof -
  let ?cs = "[\<lparr>id' = ''zebra'', name = ''Zebra'', blueprints = [1::nat]\<rparr>,
        \<lparr>id' = ''default'', name = ''Default'', blueprints = []\<rparr>,
        \<lparr>id' = ''alpha'', name = ''Alpha'', blueprints = [2, 3]\<rparr>]"
  have one: "length (filter (\<lambda>c. id' c = ''default'') ?cs) \<le> 1" by simp
  show ?thesis
    using sort_collections_default_first [OF codeunit_compare_consistent one]
    by (simp add: Array_sort_def)
qed

section \<open>Properties of the backend adapters\<close>

subsection \<open>Upload\<close>

lemma FileStorage_uploadFile_idempotent:
  "assets fs filename \<noteq> None \<Longrightarrow>
   FileStorage_uploadFile env fs now filename buf ctype = Inr (assetsUrl fs @ ''/'' @ filename, fs)"
  by (simp add: FileStorage_uploadFile_def)

lemma FileStorage_uploadFile_fresh:
  "assets fs filename = None \<Longrightarrow> \<not> writeFile_fails env (''assets/'' @ filename) \<Longrightarrow>
   FileStorage_uploadFile env fs now filename buf ctype =
     Inr (assetsUrl fs @ ''/'' @ filename,
          fs\<lparr>assets := (assets fs)(filename \<mapsto> \<lparr>data = buf, mtime = now\<rparr>)\<rparr>)"
  by (simp add: FileStorage_uploadFile_def)

lemma AwsS3Storage_uploadFile_puts:
  "s3_fault env (PutObject (assetsPrefix cfg @ filename)) = None \<Longrightarrow>
   AwsS3Storage_uploadFile cfg env b now filename buf ctype =
     Inr (getS3BaseUrl cfg @ ''/'' @ assetsPrefix cfg @ filename,
          b(assetsPrefix cfg @ filename \<mapsto>
              \<lparr>body = buf, contentType = ctype,
               cacheControl = Some ''public, max-age=31536000, immutable'',
               lastModified = now\<rparr>))"
  by (simp add: AwsS3Storage_uploadFile_def send_PutObject_def Let_def)

text \<open>
  Claim C1, as stated, is refuted for the object store: \<^verbatim>\<open>AwsS3Storage.uploadFile\<close> sends
  its \<^verbatim>\<open>PutObjectCommand\<close> without looking for an object of that name. Uploading, at time
  200, the bytes that are already stored under the same hash-derived name since time 100
  returns the locator and leaves one object under the key, but that object has been
  written again: its modification time is now 200.
\<close>

theorem AwsS3Storage_uploadFile_overwrites:
  "AwsS3Storage_uploadFile example_s3_config quiet_s3_env
     [''assets/'' @ hashed_png \<mapsto>
        \<lparr>body = [1, 2, 3], contentType = Plain (JStr ''image/png''),
         cacheControl = Some ''public, max-age=31536000, immutable'', lastModified = 100\<rparr>]
     200 hashed_png [1, 2, 3] (Plain (JStr ''image/png''))
   = Inr (''https://world.s3.us-east-1.amazonaws.com/assets/'' @ hashed_png,
          [''assets/'' @ hashed_png \<mapsto>
             \<lparr>body = [1, 2, 3], contentType = Plain (JStr ''image/png''),
              cacheControl = Some ''public, max-age=31536000, immutable'', lastModified = 200\<rparr>])"
  by (simp add: AwsS3Storage_uploadFile_def send_PutObject_def example_s3_config_def
      quiet_s3_env_def getS3BaseUrl_def Let_def)

text \<open>
  Claim C1, amended. Local adapter: when a file of that name exists, \<^verbatim>\<open>uploadFile\<close>
  returns the locator and leaves the storage, modification times included, as it is; when
  none exists (and the write succeeds) it stores the bytes under the name and returns the
  same locator. Object store: \<^verbatim>\<open>uploadFile\<close> (when the request succeeds) stores the bytes
  under the name whether or not an object is there, with the time of this upload, and
  returns the same locator in both cases; the bucket still holds one object under that
  key and the other keys are untouched.
\<close>

theorem uploadFile_by_backend:
  "(assets fs filename \<noteq> None \<longrightarrow>
      FileStorage_uploadFile lenv fs now filename buf ctype
        = Inr (assetsUrl fs @ ''/'' @ filename, fs)) \<and>
   (assets fs filename = None \<and> \<not> writeFile_fails lenv (''assets/'' @ filename) \<longrightarrow>
      FileStorage_uploadFile lenv fs now filename buf ctype
        = Inr (assetsUrl fs @ ''/'' @ filename,
               fs\<lparr>assets := (assets fs)(filename \<mapsto> \<lparr>data = buf, mtime = now\<rparr>)\<rparr>)) \<and>
   (s3_fault env (PutObject (assetsPrefix cfg @ filename)) = None \<longrightarrow>
      AwsS3Storage_uploadFile cfg env b now filename buf ctype
        = Inr (getS3BaseUrl cfg @ ''/'' @ assetsPrefix cfg @ filename,
               b(assetsPrefix cfg @ filename \<mapsto>
                   \<lparr>body = buf, contentType = ctype,
                    cacheControl = Some ''public, max-age=31536000, immutable'',
                    lastModified = now\<rparr>)))"
  by (simp add: FileStorage_uploadFile_idempotent FileStorage_uploadFile_fresh
      AwsS3Storage_uploadFile_puts)

theorem uploadFile_by_backend_witness:
  "FileStorage_uploadFile quiet_local_env example_file_storage 50 ''crash-block.glb'' [1, 2]
       (Plain (JStr ''model/gltf-binary''))
     = Inr (''/assets/crash-block.glb'', example_file_storage) \<and>
   FileStorage_uploadFile quiet_local_env example_file_storage 50 hashed_png [1, 2, 3]
       (Plain (JStr ''image/png''))
     = Inr (''/assets/'' @ hashed_png,
            example_file_storage\<lparr>assets :=
              (assets example_file_storage)(hashed_png \<mapsto> \<lparr>data = [1, 2, 3], mtime = 50\<rparr>)\<rparr>) \<and>
   AwsS3Storage_uploadFile example_s3_config quiet_s3_env example_bucket 50 hashed_png [1, 2, 3]
       (Plain (JStr ''image/png''))
     = Inr (''https://world.s3.us-east-1.amazonaws.com/assets/'' @ hashed_png,
            example_bucket(''assets/'' @ hashed_png \<mapsto>
              \<lparr>body = [1, 2, 3], contentType = Plain (JStr ''image/png''),
               cacheControl = Some ''public, max-age=31536000, immutable'',
               lastModified = 50\<rparr>))"
proof -
  have a: "assets example_file_storage ''crash-block.glb'' \<noteq> None"
    by (simp add: example_file_storage_def)
  have b: "assets example_file_storage hashed_png = None \<and>
      \<not> writeFile_fails quiet_local_env (''assets/'' @ hashed_png)"
    by (simp add: example_file_storage_def quiet_local_env_def hashed_png_def)
  have c: "s3_fault quiet_s3_env (PutObject (assetsPrefix example_s3_config @ hashed_png)) = None"
    by (simp add: quiet_s3_env_def)
  have u: "assetsUrl example_file_storage = ''/assets''"
    "assetsPrefix example_s3_config = ''assets/''"
    "getS3BaseUrl example_s3_config = ''https://world.s3.us-east-1.amazonaws.com''"
    by (simp_all add: example_file_storage_def example_s3_config_def getS3BaseUrl_def)
  show ?thesis
    using a b c u
      uploadFile_by_backend [where fs = example_file_storage and lenv = quiet_local_env
        and now = 50 and filename = "''crash-block.glb''" and buf = "[1, 2]"
        and ctype = "Plain (JStr ''model/gltf-binary'')"]
      uploadFile_by_backend [where fs = example_file_storage and lenv = quiet_local_env
        and now = 50 and filename = hashed_png and buf = "[1, 2, 3]" and ctype = "Plain (JStr ''image/png'')"
        and env = quiet_s3_env and cfg = example_s3_config and b = example_bucket]
    by simp
qed

subsection \<open>Seeding of the built-in content\<close>

lemma copyFileToS3_keeps:
  "fst st k = Some obj \<Longrightarrow> fst (copyFileToS3 env now p key n buf st) k = Some obj"
  by (auto simp: copyFileToS3_def send_HeadObject_def send_PutObject_def
      split: option.splits sum.splits s3_error.splits)

lemma copyFileToS3_other:
  "key \<noteq> k \<Longrightarrow> fst (copyFileToS3 env now p key n buf st) k = fst st k"
  by (auto simp: copyFileToS3_def send_HeadObject_def send_PutObject_def
      split: option.splits sum.splits s3_error.splits)

lemma copyFileToS3_log_mono:
  "x \<in> set (snd st) \<Longrightarrow> x \<in> set (snd (copyFileToS3 env now p key n buf st))"
  by (auto simp: copyFileToS3_def send_HeadObject_def send_PutObject_def
      split: option.splits sum.splits s3_error.splits)

lemma copyFileToS3_copies:
  "fst st key = None \<Longrightarrow> \<not> file_step_fails env p key \<Longrightarrow>
   fst (copyFileToS3 env now p key n buf st) key =
     Some \<lparr>body = buf, contentType = getContentType n, cacheControl = None, lastModified = now\<rparr>"
  by (auto simp: copyFileToS3_def send_HeadObject_def send_PutObject_def file_step_fails_def
      split: option.splits sum.splits s3_error.splits)

lemma copyFileToS3_skips:
  "fst st key = None \<Longrightarrow> file_step_fails env p key \<Longrightarrow>
   fst (copyFileToS3 env now p key n buf st) key = None \<and>
   (ErrorChecking key \<in> set (snd (copyFileToS3 env now p key n buf st)) \<or>
    ErrorCopying p \<in> set (snd (copyFileToS3 env now p key n buf st)))"
  by (auto simp: copyFileToS3_def send_HeadObject_def send_PutObject_def file_step_fails_def
      split: option.splits sum.splits s3_error.splits)

lemma copyEntries_keeps:
  "fst st k = Some obj \<Longrightarrow> fst (snd (copyEntryToS3 env now ld pf e st)) k = Some obj"
  "fst st k = Some obj \<Longrightarrow> fst (snd (copyEntriesToS3 env now ld pf es st)) k = Some obj"
proof (induction env now ld pf e st and env now ld pf es st
      rule: copyEntryToS3_copyEntriesToS3.induct)
  case (1 env now localDir s3Prefix n buf st)
  then show ?case by (simp add: copyFileToS3_keeps)
next
  case (2 env now localDir s3Prefix n es st)
  then show ?case by simp
next
  case (3 env now localDir s3Prefix st)
  then show ?case by simp
next
  case (4 env now localDir s3Prefix e es st)
  let ?r = "copyEntryToS3 env now localDir s3Prefix e st"
  have a: "fst (snd ?r) k = Some obj" using 4(1)[OF 4(3)] .
  show ?case
  proof (cases "fst ?r")
    case True
    then show ?thesis using a by (simp add: Let_def)
  next
    case False
    have "fst (snd (copyEntriesToS3 env now localDir s3Prefix es (snd ?r))) k = Some obj"
      using 4(2)[OF refl False a] .
    then show ?thesis using False by (simp add: Let_def)
  qed
qed

lemma copyDirectoryToS3_keeps:
  "fst st k = Some obj \<Longrightarrow> fst (snd (copyDirectoryToS3 env now ld pf es st)) k = Some obj"
  by (simp add: copyDirectoryToS3_def copyEntries_keeps)

lemma copyBuiltInContent_keeps:
  assumes "fst st k = Some obj"
  shows "fst (copyBuiltInContent cfg env now A C st) k = Some obj"
proof (cases A)
  case None
  then show ?thesis using assms
    by (cases C) (simp_all add: copyBuiltInContent_def copyDirectoryToS3_keeps)
next
  case (Some es)
  let ?r = "copyDirectoryToS3 env now ''src/world/assets'' (assetsPrefix cfg) es st"
  have a: "fst (snd ?r) k = Some obj" using assms by (rule copyDirectoryToS3_keeps)
  show ?thesis
  proof (cases C)
    case None
    then show ?thesis using Some a by (simp add: copyBuiltInContent_def Let_def)
  next
    case (Some cs)
    have "fst (snd (copyDirectoryToS3 env now ''src/world/collections'' (collectionsPrefix cfg) cs (snd ?r))) k = Some obj"
      using a by (rule copyDirectoryToS3_keeps)
    then show ?thesis using Some \<open>A = Some es\<close> a by (simp add: copyBuiltInContent_def Let_def)
  qed
qed

lemma copyFiles_append:
  "copyFiles env now (xs @ ys) st = copyFiles env now ys (copyFiles env now xs st)"
  by (simp add: copyFiles_def)

lemma copyFiles_Cons:
  "copyFiles env now (f # fs) st =
     copyFiles env now fs (copyFileToS3 env now (fst f) (fst (snd f)) (fst (snd (snd f))) (snd (snd (snd f))) st)"
  by (simp add: copyFiles_def)

lemma copyFiles_Nil: "copyFiles env now [] st = st"
  by (simp add: copyFiles_def)

lemma copyEntries_fold:
  "\<forall>d. \<not> readdir_fails env d \<Longrightarrow>
     copyEntryToS3 env now ld pf e st = (False, copyFiles env now (entry_files ld pf e) st)"
  "\<forall>d. \<not> readdir_fails env d \<Longrightarrow>
     copyEntriesToS3 env now ld pf es st = (False, copyFiles env now (entries_files ld pf es) st)"
proof (induction env now ld pf e st and env now ld pf es st
    rule: copyEntryToS3_copyEntriesToS3.induct)
  case (1 env now localDir s3Prefix n buf st)
  then show ?case by (simp add: copyFiles_Cons copyFiles_Nil)
next
  case (2 env now localDir s3Prefix n es st)
  then show ?case by simp
next
  case (3 env now localDir s3Prefix st)
  then show ?case by (simp add: copyFiles_Nil)
next
  case (4 env now localDir s3Prefix e es st)
  let ?r = "copyEntryToS3 env now localDir s3Prefix e st"
  have r: "?r = (False, copyFiles env now (entry_files localDir s3Prefix e) st)"
    using 4(1)[OF 4(3)] .
  then have nf: "\<not> fst ?r" by simp
  have "copyEntriesToS3 env now localDir s3Prefix es (snd ?r)
          = (False, copyFiles env now (entries_files localDir s3Prefix es) (snd ?r))"
    using 4(2)[OF refl nf 4(3)] .
  then show ?case using r by (simp add: Let_def copyFiles_append)
qed

lemma copyBuiltInContent_fold:
  assumes "\<forall>d. \<not> readdir_fails env d"
  shows "copyBuiltInContent cfg env now A C st = copyFiles env now (bundled_files cfg A C) st"
  using assms
  by (cases A; cases C)
    (simp_all add: copyBuiltInContent_def bundled_files_def copyDirectoryToS3_def
      copyEntries_fold copyFiles_Nil copyFiles_append Let_def)

lemma copyFiles_keeps:
  "fst st k = Some obj \<Longrightarrow> fst (copyFiles env now fs st) k = Some obj"
  by (induction fs arbitrary: st) (simp_all add: copyFiles_Nil copyFiles_Cons copyFileToS3_keeps)

lemma copyFiles_other:
  "k \<notin> set (map (\<lambda>f. fst (snd f)) fs) \<Longrightarrow> fst (copyFiles env now fs st) k = fst st k"
proof (induction fs arbitrary: st)
  case Nil
  show ?case by (simp add: copyFiles_Nil)
next
  case (Cons f fs)
  then have ne: "fst (snd f) \<noteq> k" and notin: "k \<notin> set (map (\<lambda>f. fst (snd f)) fs)" by auto
  show ?case
    using Cons.IH[OF notin] copyFileToS3_other[OF ne] by (simp add: copyFiles_Cons)
qed

lemma copyFiles_log_mono:
  "x \<in> set (snd st) \<Longrightarrow> x \<in> set (snd (copyFiles env now fs st))"
  by (induction fs arbitrary: st) (simp_all add: copyFiles_Nil copyFiles_Cons copyFileToS3_log_mono)

lemma copyFiles_file:
  assumes "(p, k, n, buf) \<in> set fs" "distinct (map (\<lambda>f. fst (snd f)) fs)" "fst st k = None"
  shows "(\<not> file_step_fails env p k \<longrightarrow>
            fst (copyFiles env now fs st) k =
              Some \<lparr>body = buf, contentType = getContentType n, cacheControl = None,
                    lastModified = now\<rparr>) \<and>
         (file_step_fails env p k \<longrightarrow>
            fst (copyFiles env now fs st) k = None \<and>
            (ErrorChecking k \<in> set (snd (copyFiles env now fs st)) \<or>
             ErrorCopying p \<in> set (snd (copyFiles env now fs st))))"
  using assms
proof (induction fs arbitrary: st)
  case Nil
  then show ?case by simp
next
  case (Cons f fs)
  let ?st = "copyFileToS3 env now (fst f) (fst (snd f)) (fst (snd (snd f))) (snd (snd (snd f))) st"
  show ?case
  proof (cases "f = (p, k, n, buf)")
    case True
    then have notin: "k \<notin> set (map (\<lambda>f. fst (snd f)) fs)" using Cons.prems(2) by auto
    have same: "fst (copyFiles env now (f # fs) st) k = fst ?st k"
      by (simp add: copyFiles_Cons copyFiles_other[OF notin])
    show ?thesis
    proof (cases "file_step_fails env p k")
      case False
      then show ?thesis using same True copyFileToS3_copies[OF Cons.prems(3) False, of now n buf]
        by simp
    next
      case fails: True
      note sk = copyFileToS3_skips[OF Cons.prems(3) fails, of now n buf]
      have "ErrorChecking k \<in> set (snd (copyFiles env now (f # fs) st)) \<or>
            ErrorCopying p \<in> set (snd (copyFiles env now (f # fs) st))"
        using sk True copyFiles_log_mono[of _ ?st env now fs] by (auto simp: copyFiles_Cons)
      then show ?thesis using same True sk fails by simp
    qed
  next
    case False
    then have mem: "(p, k, n, buf) \<in> set fs" using Cons.prems(1) by simp
    then have "k \<in> set (map (\<lambda>f. fst (snd f)) fs)" by force
    then have "fst (snd f) \<noteq> k" using Cons.prems(2) by auto
    then have none: "fst ?st k = None" using Cons.prems(3) by (simp add: copyFileToS3_other)
    have d: "distinct (map (\<lambda>f. fst (snd f)) fs)" using Cons.prems(2) by simp
    show ?thesis using Cons.IH[OF mem d none] by (simp add: copyFiles_Cons)
  qed
qed


lemma write_all_Nil: "write_all now [] m = m"
  by (simp add: write_all_def)

lemma write_all_Cons:
  "write_all now (f # fs) m = write_all now fs (m(fst f \<mapsto> \<lparr>data = snd f, mtime = now\<rparr>))"
  by (simp add: write_all_def)

lemma write_all_append: "write_all now (xs @ ys) m = write_all now ys (write_all now xs m)"
  by (simp add: write_all_def)

lemma write_all_other: "p \<notin> set (map fst fs) \<Longrightarrow> write_all now fs m p = m p"
  by (induction fs arbitrary: m) (simp_all add: write_all_Nil write_all_Cons)

lemma write_all_file:
  "(p, buf) \<in> set fs \<Longrightarrow> distinct (map fst fs) \<Longrightarrow>
   write_all now fs m p = Some \<lparr>data = buf, mtime = now\<rparr>"
proof (induction fs arbitrary: m)
  case Nil
  then show ?case by simp
next
  case (Cons f fs)
  show ?case
  proof (cases "f = (p, buf)")
    case True
    then have "p \<notin> set (map fst fs)" using Cons.prems(2) by auto
    then show ?thesis using True by (simp add: write_all_Cons write_all_other)
  next
    case False
    then have "(p, buf) \<in> set fs" using Cons.prems(1) by simp
    then show ?thesis using Cons.IH Cons.prems(2) by (simp add: write_all_Cons)
  qed
qed

lemma fs_copy_ok:
  "\<forall>f\<in>set (entry_paths prefix e). \<not> writeFile_fails env (root @ fst f) \<Longrightarrow>
     fs_copy_entry env now root prefix e m = Inr (write_all now (entry_paths prefix e) m)"
  "\<forall>f\<in>set (entries_paths prefix es). \<not> writeFile_fails env (root @ fst f) \<Longrightarrow>
     fs_copy_entries env now root prefix es m = Inr (write_all now (entries_paths prefix es) m)"
proof (induction env now root prefix e m and env now root prefix es m
    rule: fs_copy_entry_fs_copy_entries.induct)
  case (1 env now root prefix n b m)
  then show ?case by (simp add: write_all_def fun_eq_iff)
next
  case (2 env now root prefix n es m)
  then show ?case by simp
next
  case (3 env now root prefix m)
  then show ?case by (simp add: write_all_Nil)
next
  case (4 env now root prefix e es m)
  have a: "fs_copy_entry env now root prefix e m = Inr (write_all now (entry_paths prefix e) m)"
    using 4(1) 4(3) by simp
  have "fs_copy_entries env now root prefix es (write_all now (entry_paths prefix e) m)
          = Inr (write_all now (entries_paths prefix es) (write_all now (entry_paths prefix e) m))"
    using 4(2)[OF a] 4(3) by simp
  then show ?case using a by (simp add: write_all_append)
qed

lemma fs_copy_fail:
  "\<exists>f\<in>set (entry_paths prefix e). writeFile_fails env (root @ fst f) \<Longrightarrow>
     \<exists>err. fs_copy_entry env now root prefix e m = Inl err"
  "\<exists>f\<in>set (entries_paths prefix es). writeFile_fails env (root @ fst f) \<Longrightarrow>
     \<exists>err. fs_copy_entries env now root prefix es m = Inl err"
proof (induction env now root prefix e m and env now root prefix es m
    rule: fs_copy_entry_fs_copy_entries.induct)
  case (1 env now root prefix n b m)
  then show ?case by simp
next
  case (2 env now root prefix n es m)
  then show ?case by simp
next
  case (3 env now root prefix m)
  then show ?case by simp
next
  case (4 env now root prefix e es m)
  show ?case
  proof (cases "fs_copy_entry env now root prefix e m")
    case (Inl err)
    then show ?thesis by simp
  next
    case (Inr m')
    have "\<not> (\<exists>f\<in>set (entry_paths prefix e). writeFile_fails env (root @ fst f))"
      using 4(1) Inr by auto
    then have "\<exists>f\<in>set (entries_paths prefix es). writeFile_fails env (root @ fst f)"
      using 4(3) by auto
    then show ?thesis using 4(2)[OF Inr] Inr by simp
  qed
qed

lemma initialize_ok:
  assumes dirs: "\<not> ensureDir_fails env ''world''" "\<not> ensureDir_fails env ''assets''"
      "\<not> ensureDir_fails env ''collections''"
    and wa: "\<forall>f\<in>set (tree_paths A). \<not> writeFile_fails env (''assets/'' @ fst f)"
    and wc: "\<forall>f\<in>set (tree_paths C). \<not> writeFile_fails env (''collections/'' @ fst f)"
  shows "FileStorage_initialize env now A C fs =
           Inr (fs\<lparr>assets := write_all now (tree_paths A) (assets fs),
                    collections := write_all now (tree_paths C) (collections fs)\<rparr>)"
  using assms
  by (cases A; cases C)
    (simp_all add: FileStorage_initialize_def tree_paths_def fs_copy_ok write_all_Nil)

lemma initialize_fail:
  assumes "(\<exists>f\<in>set (tree_paths A). writeFile_fails env (''assets/'' @ fst f)) \<or>
           (\<exists>f\<in>set (tree_paths C). writeFile_fails env (''collections/'' @ fst f))"
  shows "\<exists>err. FileStorage_initialize env now A C fs = Inl err"
proof -
  have a: "\<exists>f\<in>set (tree_paths A). writeFile_fails env (''assets/'' @ fst f) \<Longrightarrow>
        \<exists>err. (case A of None \<Rightarrow> Inr (assets fs)
               | Some es \<Rightarrow> fs_copy_entries env now ''assets/'' [] es (assets fs)) = Inl err"
    by (cases A) (simp_all add: tree_paths_def fs_copy_fail)
  have c: "\<And>m. \<exists>f\<in>set (tree_paths C). writeFile_fails env (''collections/'' @ fst f) \<Longrightarrow>
        \<exists>err. (case C of None \<Rightarrow> Inr m
               | Some es \<Rightarrow> fs_copy_entries env now ''collections/'' [] es m) = Inl err"
    by (cases C) (simp_all add: tree_paths_def fs_copy_fail)
  show ?thesis
  proof (cases "(case A of None \<Rightarrow> Inr (assets fs)
               | Some es \<Rightarrow> fs_copy_entries env now ''assets/'' [] es (assets fs))")
    case (Inl err)
    then show ?thesis by (simp add: FileStorage_initialize_def)
  next
    case (Inr m)
    with a assms have "\<exists>f\<in>set (tree_paths C). writeFile_fails env (''collections/'' @ fst f)"
      by auto
    from c[OF this, of "collections fs"] Inr show ?thesis
      by (auto simp: FileStorage_initialize_def)
  qed
qed

text \<open>
  Claim C5, as stated, is refuted for the local backend: \<^verbatim>\<open>FileStorage.initialize\<close>
  copies the bundled trees with \<^verbatim>\<open>fs.copy\<close>. A \<^verbatim>\<open>crash-block.glb\<close> that is already in the
  assets directory (bytes 9, written at time 10) is replaced by the bundled one, and when
  the write fails, \<^verbatim>\<open>initialize\<close> fails with it.
\<close>

theorem FileStorage_initialize_overwrites_counterexample:
  "FileStorage_initialize quiet_local_env 50 (Some example_assets) None example_file_storage
     = Inr (example_file_storage\<lparr>assets :=
         [''crash-block.glb'' \<mapsto> \<lparr>data = [1, 2], mtime = 50\<rparr>,
          ''bad.glb'' \<mapsto> \<lparr>data = [3], mtime = 50\<rparr>,
          ''sub/x.png'' \<mapsto> \<lparr>data = [4], mtime = 50\<rparr>]\<rparr>) \<and>
   FileStorage_initialize full_disk_env 50 (Some example_assets) None example_file_storage
     = Inl (IOError ''assets/crash-block.glb'')"
  by (simp add: FileStorage_initialize_def quiet_local_env_def full_disk_env_def example_assets_def
      example_file_storage_def fun_eq_iff)

text \<open>
  Claim C5, amended. Object store: seeding never changes an object that exists; a failure
  of the seeding never makes \<^verbatim>\<open>initialize\<close> fail; and, when the bundled directories can be
  listed and no two bundled files share a key, a bundled file whose key is absent is
  stored with its bytes if its three steps succeed, and otherwise stays absent with an
  error on the console, whatever happens to the other files. Local backend: when no write
  fails, \<^verbatim>\<open>initialize\<close> writes every bundled file, so that each bundled path holds the
  bundled bytes whatever it held before; when the write of a bundled file fails,
  \<^verbatim>\<open>initialize\<close> fails.
\<close>

theorem seeding_by_backend:
  "(b k = Some obj \<longrightarrow> fst (copyBuiltInContent cfg env now A C (b, con)) k = Some obj) \<and>
   (s3_fault env (ListObjectsV2 (assetsPrefix cfg)) = None \<longrightarrow>
      AwsS3Storage_initialize cfg env now A C (b, con)
        = Inr (copyBuiltInContent cfg env now A C (b, con))) \<and>
   ((\<forall>d. \<not> readdir_fails env d) \<and> distinct (map (\<lambda>f. fst (snd f)) (bundled_files cfg A C)) \<and>
    (p, k', n, buf) \<in> set (bundled_files cfg A C) \<and> b k' = None \<longrightarrow>
      (\<not> file_step_fails env p k' \<longrightarrow>
         fst (copyBuiltInContent cfg env now A C (b, con)) k' =
           Some \<lparr>body = buf, contentType = getContentType n, cacheControl = None,
                 lastModified = now\<rparr>) \<and>
      (file_step_fails env p k' \<longrightarrow>
         fst (copyBuiltInContent cfg env now A C (b, con)) k' = None \<and>
         (ErrorChecking k' \<in> set (snd (copyBuiltInContent cfg env now A C (b, con))) \<or>
          ErrorCopying p \<in> set (snd (copyBuiltInContent cfg env now A C (b, con)))))) \<and>
   (\<not> ensureDir_fails lenv ''world'' \<and> \<not> ensureDir_fails lenv ''assets'' \<and>
    \<not> ensureDir_fails lenv ''collections'' \<and>
    (\<forall>f\<in>set (tree_paths A). \<not> writeFile_fails lenv (''assets/'' @ fst f)) \<and>
    (\<forall>f\<in>set (tree_paths C). \<not> writeFile_fails lenv (''collections/'' @ fst f)) \<longrightarrow>
      FileStorage_initialize lenv now A C fs =
        Inr (fs\<lparr>assets := write_all now (tree_paths A) (assets fs),
                 collections := write_all now (tree_paths C) (collections fs)\<rparr>) \<and>
      ((q, buf') \<in> set (tree_paths A) \<and> distinct (map fst (tree_paths A)) \<longrightarrow>
         write_all now (tree_paths A) (assets fs) q = Some \<lparr>data = buf', mtime = now\<rparr>) \<and>
      ((q, buf') \<in> set (tree_paths C) \<and> distinct (map fst (tree_paths C)) \<longrightarrow>
         write_all now (tree_paths C) (collections fs) q = Some \<lparr>data = buf', mtime = now\<rparr>)) \<and>
   ((\<exists>f\<in>set (tree_paths A). writeFile_fails lenv (''assets/'' @ fst f)) \<or>
    (\<exists>f\<in>set (tree_paths C). writeFile_fails lenv (''collections/'' @ fst f)) \<longrightarrow>
      (\<exists>err. FileStorage_initialize lenv now A C fs = Inl err))"
proof (intro conjI impI)
  assume "b k = Some obj"
  then show "fst (copyBuiltInContent cfg env now A C (b, con)) k = Some obj"
    using copyBuiltInContent_keeps[of "(b, con)" k obj] by simp
next
  assume "s3_fault env (ListObjectsV2 (assetsPrefix cfg)) = None"
  then show "AwsS3Storage_initialize cfg env now A C (b, con)
        = Inr (copyBuiltInContent cfg env now A C (b, con))"
    by (simp add: AwsS3Storage_initialize_def)
next
  assume h: "(\<forall>d. \<not> readdir_fails env d) \<and>
    distinct (map (\<lambda>f. fst (snd f)) (bundled_files cfg A C)) \<and>
    (p, k', n, buf) \<in> set (bundled_files cfg A C) \<and> b k' = None"
    and nf: "\<not> file_step_fails env p k'"
  from h have fold: "copyBuiltInContent cfg env now A C (b, con)
      = copyFiles env now (bundled_files cfg A C) (b, con)"
    by (simp add: copyBuiltInContent_fold)
  from h have "fst (b, con) k' = None" by simp
  from copyFiles_file[OF _ _ this, of p n buf "bundled_files cfg A C" env now] h nf fold
  show "fst (copyBuiltInContent cfg env now A C (b, con)) k' =
           Some \<lparr>body = buf, contentType = getContentType n, cacheControl = None,
                 lastModified = now\<rparr>"
    by simp
next
  assume h: "(\<forall>d. \<not> readdir_fails env d) \<and>
    distinct (map (\<lambda>f. fst (snd f)) (bundled_files cfg A C)) \<and>
    (p, k', n, buf) \<in> set (bundled_files cfg A C) \<and> b k' = None"
    and f: "file_step_fails env p k'"
  from h have fold: "copyBuiltInContent cfg env now A C (b, con)
      = copyFiles env now (bundled_files cfg A C) (b, con)"
    by (simp add: copyBuiltInContent_fold)
  from h have "fst (b, con) k' = None" by simp
  from copyFiles_file[OF _ _ this, of p n buf "bundled_files cfg A C" env now] h f fold
  show "fst (copyBuiltInContent cfg env now A C (b, con)) k' = None"
    by simp
next
  assume h: "(\<forall>d. \<not> readdir_fails env d) \<and>
    distinct (map (\<lambda>f. fst (snd f)) (bundled_files cfg A C)) \<and>
    (p, k', n, buf) \<in> set (bundled_files cfg A C) \<and> b k' = None"
    and f: "file_step_fails env p k'"
  from h have fold: "copyBuiltInContent cfg env now A C (b, con)
      = copyFiles env now (bundled_files cfg A C) (b, con)"
    by (simp add: copyBuiltInContent_fold)
  from h have "fst (b, con) k' = None" by simp
  from copyFiles_file[OF _ _ this, of p n buf "bundled_files cfg A C" env now] h f fold
  show "ErrorChecking k' \<in> set (snd (copyBuiltInContent cfg env now A C (b, con))) \<or>
          ErrorCopying p \<in> set (snd (copyBuiltInContent cfg env now A C (b, con)))"
    by simp
next
  assume h: "\<not> ensureDir_fails lenv ''world'' \<and> \<not> ensureDir_fails lenv ''assets'' \<and>
    \<not> ensureDir_fails lenv ''collections'' \<and>
    (\<forall>f\<in>set (tree_paths A). \<not> writeFile_fails lenv (''assets/'' @ fst f)) \<and>
    (\<forall>f\<in>set (tree_paths C). \<not> writeFile_fails lenv (''collections/'' @ fst f))"
  then show "FileStorage_initialize lenv now A C fs =
        Inr (fs\<lparr>assets := write_all now (tree_paths A) (assets fs),
                 collections := write_all now (tree_paths C) (collections fs)\<rparr>)"
    using initialize_ok[of lenv A C now fs] by simp
next
  assume "(q, buf') \<in> set (tree_paths A) \<and> distinct (map fst (tree_paths A))"
  then show "write_all now (tree_paths A) (assets fs) q = Some \<lparr>data = buf', mtime = now\<rparr>"
    by (simp add: write_all_file)
next
  assume "(q, buf') \<in> set (tree_paths C) \<and> distinct (map fst (tree_paths C))"
  then show "write_all now (tree_paths C) (collections fs) q = Some \<lparr>data = buf', mtime = now\<rparr>"
    by (simp add: write_all_file)
next
  assume "(\<exists>f\<in>set (tree_paths A). writeFile_fails lenv (''assets/'' @ fst f)) \<or>
    (\<exists>f\<in>set (tree_paths C). writeFile_fails lenv (''collections/'' @ fst f))"
  then show "\<exists>err. FileStorage_initialize lenv now A C fs = Inl err"
    by (rule initialize_fail)
qed

lemma getContentType_glb: "getContentType ''crash-block.glb'' = Plain (JStr ''application/octet-stream'')"
  by (simp add: getContentType_def split_pop_def toLowerCase_def mimeTypes_def)
lemma getContentType_png: "getContentType ''x.png'' = Plain (JStr ''image/png'')"
  by (simp add: getContentType_def split_pop_def toLowerCase_def mimeTypes_def)
lemma getContentType_upper: "getContentType ''X.PNG'' = Plain (JStr ''image/png'')"
  by code_simp
lemma getContentType_inherited: "getContentType ''model.constructor'' = Builtin ''Object''"
  by code_simp

lemma example_bundled_files: "bundled_files example_s3_config (Some example_assets) (Some example_collections) =
  [(''src/world/assets/crash-block.glb'', ''assets/crash-block.glb'', ''crash-block.glb'', [1, 2]),
   (''src/world/assets/bad.glb'', ''assets/bad.glb'', ''bad.glb'', [3]),
   (''src/world/assets/sub/x.png'', ''assets/sub/x.png'', ''x.png'', [4]),
   (''src/world/collections/default/manifest.json'', ''collections/default/manifest.json'', ''manifest.json'', [7])]"
  by (simp add: bundled_files_def example_s3_config_def example_assets_def example_collections_def)

theorem seeding_by_backend_witness:
  "fst (copyBuiltInContent example_s3_config flaky_s3_env 50 (Some example_assets)
          (Some example_collections) (example_bucket, [])) ''collections/default/manifest.json''
     = Some \<lparr>body = [9], contentType = Plain (JStr ''application/json''), cacheControl = None,
             lastModified = 10\<rparr> \<and>
   fst (copyBuiltInContent example_s3_config flaky_s3_env 50 (Some example_assets)
          (Some example_collections) (example_bucket, [])) ''assets/sub/x.png''
     = Some \<lparr>body = [4], contentType = Plain (JStr ''image/png''), cacheControl = None, lastModified = 50\<rparr> \<and>
   fst (copyBuiltInContent example_s3_config flaky_s3_env 50 (Some example_assets)
          (Some example_collections) (example_bucket, [])) ''assets/bad.glb'' = None \<and>
   AwsS3Storage_initialize example_s3_config flaky_s3_env 50 (Some example_assets)
       (Some example_collections) (example_bucket, [])
     = Inr (copyBuiltInContent example_s3_config flaky_s3_env 50 (Some example_assets)
              (Some example_collections) (example_bucket, [])) \<and>
   FileStorage_initialize quiet_local_env 50 (Some example_assets) (Some example_collections)
       example_file_storage
     = Inr (example_file_storage
          \<lparr>assets := write_all 50 (tree_paths (Some example_assets)) (assets example_file_storage),
           collections := write_all 50 (tree_paths (Some example_collections))
                            (collections example_file_storage)\<rparr>) \<and>
   write_all 50 (tree_paths (Some example_assets)) (assets example_file_storage) ''crash-block.glb''
     = Some \<lparr>data = [1, 2], mtime = 50\<rparr> \<and>
   (\<exists>err. FileStorage_initialize full_disk_env 50 (Some example_assets) (Some example_collections)
       example_file_storage = Inl err)"
proof -
  let ?A = "Some example_assets" and ?C = "Some example_collections"
  have old: "example_bucket ''collections/default/manifest.json''
      = Some \<lparr>body = [9], contentType = Plain (JStr ''application/json''), cacheControl = None,
             lastModified = 10\<rparr>"
    by (simp add: example_bucket_def)
  have probe: "s3_fault flaky_s3_env (ListObjectsV2 (assetsPrefix example_s3_config)) = None"
    by (simp add: flaky_s3_env_def)
  have dirs: "\<forall>d. \<not> readdir_fails flaky_s3_env d" by (simp add: flaky_s3_env_def)
  have dist: "distinct (map (\<lambda>f. fst (snd f)) (bundled_files example_s3_config ?A ?C))"
    by (simp add: example_bundled_files)
  have x: "(''src/world/assets/sub/x.png'', ''assets/sub/x.png'', ''x.png'', [4])
      \<in> set (bundled_files example_s3_config ?A ?C)" by (simp add: example_bundled_files)
  have xa: "example_bucket ''assets/sub/x.png'' = None" by (simp add: example_bucket_def)
  have xok: "\<not> file_step_fails flaky_s3_env ''src/world/assets/sub/x.png'' ''assets/sub/x.png''"
    by (simp add: file_step_fails_def flaky_s3_env_def)
  have bad: "(''src/world/assets/bad.glb'', ''assets/bad.glb'', ''bad.glb'', [3])
      \<in> set (bundled_files example_s3_config ?A ?C)" by (simp add: example_bundled_files)
  have ba: "example_bucket ''assets/bad.glb'' = None" by (simp add: example_bucket_def)
  have bfail: "file_step_fails flaky_s3_env ''src/world/assets/bad.glb'' ''assets/bad.glb''"
    by (simp add: file_step_fails_def flaky_s3_env_def)
  have ldirs: "\<not> ensureDir_fails quiet_local_env ''world'' \<and>
      \<not> ensureDir_fails quiet_local_env ''assets'' \<and>
      \<not> ensureDir_fails quiet_local_env ''collections'' \<and>
      (\<forall>f\<in>set (tree_paths ?A). \<not> writeFile_fails quiet_local_env (''assets/'' @ fst f)) \<and>
      (\<forall>f\<in>set (tree_paths ?C). \<not> writeFile_fails quiet_local_env (''collections/'' @ fst f))"
    by (simp add: quiet_local_env_def)
  have cb: "(''crash-block.glb'', [1, 2]) \<in> set (tree_paths ?A) \<and> distinct (map fst (tree_paths ?A))"
    by (simp add: tree_paths_def example_assets_def)
  have full: "(\<exists>f\<in>set (tree_paths ?A). writeFile_fails full_disk_env (''assets/'' @ fst f)) \<or>
      (\<exists>f\<in>set (tree_paths ?C). writeFile_fails full_disk_env (''collections/'' @ fst f))"
    by (auto simp: full_disk_env_def tree_paths_def example_assets_def)
  show ?thesis
    using old probe dirs dist x xa xok bad ba bfail ldirs cb full getContentType_png
      seeding_by_backend [where b = example_bucket and cfg = example_s3_config
        and env = flaky_s3_env and now = 50 and A = ?A and C = ?C and con = "[]"
        and k = "''collections/default/manifest.json''"
        and obj = "\<lparr>body = [9], contentType = Plain (JStr ''application/json''), cacheControl = None,
             lastModified = 10\<rparr>"
        and p = "''src/world/assets/sub/x.png''" and k' = "''assets/sub/x.png''"
        and n = "''x.png''" and buf = "[4]"
        and lenv = quiet_local_env and fs = example_file_storage
        and q = "''crash-block.glb''" and buf' = "[1, 2]"]
      seeding_by_backend [where b = example_bucket and cfg = example_s3_config
        and env = flaky_s3_env and now = 50 and A = ?A and C = ?C and con = "[]"
        and p = "''src/world/assets/bad.glb''" and k' = "''assets/bad.glb''"
        and n = "''bad.glb''" and buf = "[3]"
        and lenv = full_disk_env and fs = example_file_storage]
    by simp
qed

section \<open>Properties of the asset loaders\<close>

subsection \<open>The server loader: fallback and types without a loader\<close>

lemma example_resolved:
  "resolveURL example_world example_hash_url =
     ''https://cdn.example/assets/aaaaaaaaaaaaaaaaaaaaaaaaaaaaaaaaaaaaaaaaaaaaaaaaaaaaaaaaaaaaaaaa.glb''"
  by (simp add: example_world_def example_hash_url_def)

lemma example_fetch_404:
  "fetchArrayBuffer example_world
      ''https://cdn.example/assets/aaaaaaaaaaaaaaaaaaaaaaaaaaaaaaaaaaaaaaaaaaaaaaaaaaaaaaaaaaaaaaaa.glb''
   = Inl ''HTTP 404: Not Found for https://cdn.example/assets/aaaaaaaaaaaaaaaaaaaaaaaaaaaaaaaaaaaaaaaaaaaaaaaaaaaaaaaaaaaaaaaa.glb''"
  by (simp add: fetchArrayBuffer_def example_world_def digit_def Let_def)

text \<open>
  Claim C4 holds for \<^verbatim>\<open>loadModel\<close>, which has the fallback, and fails for \<^verbatim>\<open>load\<close>:
  the \<^verbatim>\<open>'model'\<close> branch of \<^verbatim>\<open>ServerLoader.load\<close> calls \<^verbatim>\<open>fetchArrayBuffer\<close> itself and
  rejects with the error of the fetch. For a reference named by a 64-character hash that
  the CDN answers with 404, \<^verbatim>\<open>loadModel\<close> returns the placeholder model (the bytes of
  \<^verbatim>\<open>crash-block.glb\<close>), while the promise that \<^verbatim>\<open>load('model', ...)\<close> cached is rejected
  once its fetch has completed.
\<close>

theorem load_model_without_fallback:
  "loadModel example_world example_hash_url = Inr (Model [7, 7]) \<and>
   heap (server_run example_world loader_new [Load ''model'' example_hash_url, Settle 0])
     = [Rejected (RError
          ''HTTP 404: Not Found for https://cdn.example/assets/aaaaaaaaaaaaaaaaaaaaaaaaaaaaaaaaaaaaaaaaaaaaaaaaaaaaaaaaaaaaaaaa.glb'')]"
proof
  show "loadModel example_world example_hash_url = Inr (Model [7, 7])"
    by (simp add: loadModel_def fetch_and_parse_def fetchArrayBuffer_def tryGetBuiltInFallback_def
        builtInAssets_def example_world_def example_hash_url_def hash_glb_here_def hex_lower_def
        digit_def Let_def)
  show "heap (server_run example_world loader_new [Load ''model'' example_hash_url, Settle 0])
     = [Rejected (RError
          ''HTTP 404: Not Found for https://cdn.example/assets/aaaaaaaaaaaaaaaaaaaaaaaaaaaaaaaaaaaaaaaaaaaaaaaaaaaaaaaaaaaaaaaa.glb'')]"
    by (simp add: server_run_def ServerLoader_load_def server_settle_def server_outcome_def
        loader_new_def example_resolved example_fetch_404 Let_def)
qed

text \<open>A reference that is not named by a hash raises in both.\<close>

lemma loadModel_plain_name_raises:
  "\<not> match_hash_glb (resolveURL env url) \<Longrightarrow> fetch_and_parse env (resolveURL env url) = Inl msg \<Longrightarrow>
   loadModel env url = Inl msg"
  by (simp add: loadModel_def tryGetBuiltInFallback_def Let_def)

lemma server_model_rejects:
  "promises s (''model/'' @ url) = None \<Longrightarrow> fetchArrayBuffer env (resolveURL env url) = Inl msg \<Longrightarrow>
   heap (server_settle env (snd (ServerLoader_load env s ''model'' url)) (length (heap s))) ! length (heap s)
     = Rejected (RError msg)"
  by (simp add: ServerLoader_load_def server_settle_def server_outcome_def Let_def)

text \<open>
  Claim C10: for a type other than \<^verbatim>\<open>'model'\<close>, \<^verbatim>\<open>'emote'\<close>, \<^verbatim>\<open>'avatar'\<close>, \<^verbatim>\<open>'script'\<close>
  and \<^verbatim>\<open>'audio'\<close>, a \<^verbatim>\<open>load\<close> whose key is not cached yet (or is cached as
  \<^verbatim>\<open>undefined\<close> by an earlier such load) returns \<^verbatim>\<open>undefined\<close>, leaves \<^verbatim>\<open>undefined\<close>
  in the promise cache, so that \<^verbatim>\<open>has\<close> is true afterwards, and starts no fetch, creates
  no promise and stores no result. For \<^verbatim>\<open>'audio'\<close>, a \<^verbatim>\<open>load\<close> whose key is not cached
  yet (or is cached by an earlier such load) returns a promise that is rejected with
  \<^verbatim>\<open>null\<close>, without a fetch or a result.
\<close>

theorem ServerLoader_load_unhandled:
  "(type \<notin> {''model'', ''emote'', ''avatar'', ''script'', ''audio''} \<and>
    promises s (type @ ''/'' @ url) \<in> {None, Some Undefined} \<longrightarrow>
      fst (ServerLoader_load env s type url) = Undefined \<and>
      promises (snd (ServerLoader_load env s type url)) (type @ ''/'' @ url) = Some Undefined \<and>
      has (snd (ServerLoader_load env s type url)) type url \<and>
      started (snd (ServerLoader_load env s type url)) = started s \<and>
      heap (snd (ServerLoader_load env s type url)) = heap s \<and>
      results (snd (ServerLoader_load env s type url)) = results s) \<and>
   (promises s (''audio/'' @ url) = None \<or>
    (\<exists>p. promises s (''audio/'' @ url) = Some (Promise p) \<and> p < length (heap s) \<and>
         heap s ! p = Rejected RNull) \<longrightarrow>
      (\<exists>p. fst (ServerLoader_load env s ''audio'' url) = Promise p \<and>
           p < length (heap (snd (ServerLoader_load env s ''audio'' url))) \<and>
           heap (snd (ServerLoader_load env s ''audio'' url)) ! p = Rejected RNull) \<and>
      has (snd (ServerLoader_load env s ''audio'' url)) ''audio'' url \<and>
      started (snd (ServerLoader_load env s ''audio'' url)) = started s \<and>
      results (snd (ServerLoader_load env s ''audio'' url)) = results s)"
proof (intro conjI impI)
  assume "type \<notin> {''model'', ''emote'', ''avatar'', ''script'', ''audio''} \<and>
    promises s (type @ ''/'' @ url) \<in> {None, Some Undefined}"
  then have t: "type \<noteq> ''model''" "type \<noteq> ''emote''" "type \<noteq> ''avatar''" "type \<noteq> ''script''"
    "type \<noteq> ''audio''"
    and c: "promises s (type @ ''/'' @ url) = None \<or> promises s (type @ ''/'' @ url) = Some Undefined"
    by auto
  from c t show "fst (ServerLoader_load env s type url) = Undefined"
    by (auto simp: ServerLoader_load_def Let_def)
  from c t show "promises (snd (ServerLoader_load env s type url)) (type @ ''/'' @ url) = Some Undefined"
    by (auto simp: ServerLoader_load_def Let_def)
  from c t show "has (snd (ServerLoader_load env s type url)) type url"
    by (auto simp: ServerLoader_load_def Let_def has_def)
  from c t show "started (snd (ServerLoader_load env s type url)) = started s"
    by (auto simp: ServerLoader_load_def Let_def)
  from c t show "heap (snd (ServerLoader_load env s type url)) = heap s"
    by (auto simp: ServerLoader_load_def Let_def)
  from c t show "results (snd (ServerLoader_load env s type url)) = results s"
    by (auto simp: ServerLoader_load_def Let_def)
next
  assume a: "promises s (''audio/'' @ url) = None \<or>
    (\<exists>p. promises s (''audio/'' @ url) = Some (Promise p) \<and> p < length (heap s) \<and>
         heap s ! p = Rejected RNull)"
  then show "\<exists>p. fst (ServerLoader_load env s ''audio'' url) = Promise p \<and>
           p < length (heap (snd (ServerLoader_load env s ''audio'' url))) \<and>
           heap (snd (ServerLoader_load env s ''audio'' url)) ! p = Rejected RNull"
    by (auto simp: ServerLoader_load_def Let_def)
  from a show "has (snd (ServerLoader_load env s ''audio'' url)) ''audio'' url"
    by (auto simp: ServerLoader_load_def Let_def has_def)
  from a show "started (snd (ServerLoader_load env s ''audio'' url)) = started s"
    by (auto simp: ServerLoader_load_def Let_def)
  from a show "results (snd (ServerLoader_load env s ''audio'' url)) = results s"
    by (auto simp: ServerLoader_load_def Let_def)
qed

theorem ServerLoader_load_unhandled_witness:
  "fst (ServerLoader_load example_world loader_new ''hdr'' ''sky.hdr'') = Undefined \<and>
   promises (snd (ServerLoader_load example_world loader_new ''hdr'' ''sky.hdr'')) ''hdr/sky.hdr''
     = Some Undefined \<and>
   has (snd (ServerLoader_load example_world loader_new ''hdr'' ''sky.hdr'')) ''hdr'' ''sky.hdr'' \<and>
   started (snd (ServerLoader_load example_world loader_new ''hdr'' ''sky.hdr'')) = [] \<and>
   fst (ServerLoader_load example_world loader_new ''audio'' ''rain.mp3'') = Promise 0 \<and>
   heap (snd (ServerLoader_load example_world loader_new ''audio'' ''rain.mp3'')) = [Rejected RNull]"
proof -
  have h: "''hdr'' \<notin> {''model'', ''emote'', ''avatar'', ''script'', ''audio''} \<and>
      promises loader_new (''hdr'' @ ''/'' @ ''sky.hdr'') \<in> {None, Some Undefined}"
    by (simp add: loader_new_def)
  have a: "promises loader_new (''audio/'' @ ''rain.mp3'') = None \<or>
      (\<exists>p. promises loader_new (''audio/'' @ ''rain.mp3'') = Some (Promise p) \<and>
           p < length (heap loader_new) \<and> heap loader_new ! p = Rejected RNull)"
    by (simp add: loader_new_def)
  have e: "started loader_new = []" "heap loader_new = []"
    by (simp_all add: loader_new_def)
  show ?thesis
    using h a e
      ServerLoader_load_unhandled [where type = "''hdr''" and url = "''sky.hdr''"
        and s = loader_new and env = example_world]
      ServerLoader_load_unhandled [where type = "''hdr''" and url = "''rain.mp3''"
        and s = loader_new and env = example_world]
    by (auto simp: ServerLoader_load_def Let_def loader_new_def)
qed

subsection \<open>The promise cache\<close>


lemma kept_cong:
  "kept K a b \<Longrightarrow> promises b' = promises b \<Longrightarrow> heap b' = heap b \<Longrightarrow> kept K a b'"
  by (simp add: kept_def)

lemma cache_le_cong:
  "cache_le a b \<Longrightarrow> promises b' = promises b \<Longrightarrow> heap b' = heap b \<Longrightarrow> cache_le a b'"
  unfolding cache_le_def by (rule kept_cong)











lemma ServerLoader_load_calls: "calls (snd (ServerLoader_load env s type url)) = calls s"
  by (cases "promises s (type @ ''/'' @ url)")
    (auto simp: ServerLoader_load_def Let_def)

lemma client_load_now_inv:
  "cache_inv s \<Longrightarrow> cache_inv (snd (client_load_now env s type url))"
  by (cases "promises s (type @ ''/'' @ url)")
    (auto simp: client_load_now_def cache_inv_def Let_def)

lemma client_load_now_le: "cache_le s (snd (client_load_now env s type url))"
  by (cases "promises s (type @ ''/'' @ url)")
    (auto simp: client_load_now_def cache_le_def kept_def final_def is_settled_def Let_def nth_append)

lemma client_load_now_calls: "calls (snd (client_load_now env s type url)) = calls s"
  by (cases "promises s (type @ ''/'' @ url)")
    (auto simp: client_load_now_def Let_def)

lemma client_load_now_returns:
  "promises (snd (client_load_now env s type url)) (type @ ''/'' @ url)
     = Some (fst (client_load_now env s type url))"
  by (cases "promises s (type @ ''/'' @ url)")
    (auto simp: client_load_now_def Let_def)

































lemma client_settle_heap:
  "is_settled s p' \<Longrightarrow> heap (client_settle env s p) ! p' = heap s ! p'"
  by (auto simp: client_settle_def Let_def is_settled_def nth_list_update
      split: pstate.splits task.splits option.splits sum.splits client_parse_result.splits)






lemma resume_call_props:
  assumes "i < length (calls s)"
  shows "length (calls (resume_call env s i)) = length (calls s)"
    and "cache_le s (resume_call env s i)"
    and "cache_inv s \<Longrightarrow> cache_inv (resume_call env s i)"
    and "\<exists>c. call_state (calls (resume_call env s i) ! i) = Returned c \<and>
           promises (resume_call env s i) (call_type (calls s ! i) @ ''/'' @ call_url (calls s ! i))
             = Some c"
    and "\<And>j. j < length (calls s) \<Longrightarrow>
            call_type (calls (resume_call env s i) ! j) = call_type (calls s ! j) \<and>
            call_url (calls (resume_call env s i) ! j) = call_url (calls s ! j)"
    and "\<And>j. j \<noteq> i \<Longrightarrow> calls (resume_call env s i) ! j = calls s ! j"
proof -
  let ?r = "client_load_now env s (call_type (calls s ! i)) (call_url (calls s ! i))"
  show "length (calls (resume_call env s i)) = length (calls s)"
    by (simp add: resume_call_def Let_def)
  show "cache_le s (resume_call env s i)"
    by (rule cache_le_cong[OF
          client_load_now_le[of s env "call_type (calls s ! i)" "call_url (calls s ! i)"]])
      (simp_all add: resume_call_def Let_def)
  show "cache_inv s \<Longrightarrow> cache_inv (resume_call env s i)"
    using client_load_now_inv[of s env "call_type (calls s ! i)" "call_url (calls s ! i)"]
    by (simp add: resume_call_def Let_def cache_inv_def)
  show "\<exists>c. call_state (calls (resume_call env s i) ! i) = Returned c \<and>
           promises (resume_call env s i) (call_type (calls s ! i) @ ''/'' @ call_url (calls s ! i))
             = Some c"
    using assms client_load_now_returns[of env s "call_type (calls s ! i)" "call_url (calls s ! i)"]
    by (simp add: resume_call_def Let_def)
  show "\<And>j. j < length (calls s) \<Longrightarrow>
            call_type (calls (resume_call env s i) ! j) = call_type (calls s ! j) \<and>
            call_url (calls (resume_call env s i) ! j) = call_url (calls s ! j)"
  proof -
    fix j assume "j < length (calls s)"
    then show "call_type (calls (resume_call env s i) ! j) = call_type (calls s ! j) \<and>
            call_url (calls (resume_call env s i) ! j) = call_url (calls s ! j)"
      by (cases "j = i") (simp_all add: resume_call_def Let_def)
  qed
  show "\<And>j. j \<noteq> i \<Longrightarrow> calls (resume_call env s i) ! j = calls s ! j"
    by (simp add: resume_call_def Let_def)
qed




lemma resume_calls_keys:
  "j < length (calls s) \<Longrightarrow>
   call_type (calls (resume_calls env q is s) ! j) = call_type (calls s ! j) \<and>
   call_url (calls (resume_calls env q is s) ! j) = call_url (calls s ! j)"
  by (induction "is" arbitrary: s) (simp_all add: resume_call_props(1) resume_call_props(5))












lemma calls_inv_mono: "calls_inv K s \<Longrightarrow> K \<subseteq> L \<Longrightarrow> calls_inv L s"
  by (auto simp: calls_inv_def)












subsection \<open>The preload barrier\<close>

















subsection \<open>Suspended calls\<close>

















subsection \<open>What becomes of a promise\<close>








subsection \<open>Coalescing of loads\<close>










end
